theory Spec2Isabelle
  imports Complex_Main "HOL-Library.Sublist"
begin

section \<open>Strings\<close>

text \<open>
  The notebook builds every file name with four string operations of Python:
  \<^verbatim>\<open>s.split(".")[0]\<close>, \<^verbatim>\<open>s.replace(old, new)\<close>, \<^verbatim>\<open>str(n)\<close> on an integer and
  \<^verbatim>\<open>os.path.basename(p)\<close>. Strings are character lists.
\<close>

text \<open>\<^verbatim>\<open>s.split(".")[0]\<close>: the part of \<open>s\<close> before its first dot, all of \<open>s\<close> when it has none.\<close>

definition split_dot_0 :: "string \<Rightarrow> string" where
  "split_dot_0 s = takeWhile (\<lambda>c. c \<noteq> CHR ''.'') s"

text \<open>
  \<^verbatim>\<open>s.replace(old, new)\<close>: every occurrence of \<open>old\<close>, found from the left and not
  overlapping, becomes \<open>new\<close>. Both call sites pass a non-empty \<open>old\<close>
  (\<^verbatim>\<open>":"\<close> and \<^verbatim>\<open>".jpg"\<close>); for an empty \<open>old\<close> the model returns \<open>s\<close>.
\<close>

function replace_str :: "string \<Rightarrow> string \<Rightarrow> string \<Rightarrow> string" where
  "replace_str old new [] = []"
| "replace_str old new (c # s) =
     (if old \<noteq> [] \<and> prefix old (c # s)
      then new @ replace_str old new (drop (length old) (c # s))
      else c # replace_str old new s)"
  by pat_completeness auto
termination
  by (relation "measure (\<lambda>(old, new, s). length s)") auto

text \<open>\<^verbatim>\<open>str(n)\<close> for a Python integer: decimal digits, a minus sign before a negative one.\<close>

definition digit_char :: "nat \<Rightarrow> char" where
  "digit_char d = ''0123456789'' ! d"

fun str_nat :: "nat \<Rightarrow> string" where
  "str_nat n = (if n < 10 then [digit_char n] else str_nat (n div 10) @ [digit_char (n mod 10)])"

declare str_nat.simps [simp del]

definition str_int :: "int \<Rightarrow> string" where
  "str_int i = (if i < 0 then CHR ''-'' # str_nat (nat (- i)) else str_nat (nat i))"

text \<open>
  \<^verbatim>\<open>os.path.basename(p)\<close> (the POSIX one): what follows the last slash of \<open>p\<close>,
  all of \<open>p\<close> when it has none.
\<close>

definition basename :: "string \<Rightarrow> string" where
  "basename p = rev (takeWhile (\<lambda>c. c \<noteq> CHR ''/'') (rev p))"

text \<open>
  \<^verbatim>\<open>p.split("/")\<close>, and the way the operating system reads a path: the components
  between slashes, where an empty component (a doubled or trailing slash) and the
  component \<^verbatim>\<open>.\<close> name no step; a path that starts with a slash starts at the root,
  written as a first component \<^verbatim>\<open>/\<close>. Two spellings of one path resolve to the same
  list. A component \<^verbatim>\<open>..\<close> is not resolved: no path of the notebook has one (the part
  of a media name before its first dot has no dot).
\<close>

fun split_slash :: "string \<Rightarrow> string list" where
  "split_slash [] = [[]]"
| "split_slash (c # s) =
     (if c = CHR ''/'' then [] # split_slash s
      else (case split_slash s of [] \<Rightarrow> [[c]] | x # xs \<Rightarrow> (c # x) # xs))"

definition resolve :: "string \<Rightarrow> string list" where
  "resolve p =
     (case p of [] \<Rightarrow> [] | c # _ \<Rightarrow> if c = CHR ''/'' then [''/''] else [])
     @ filter (\<lambda>x. x \<noteq> [] \<and> x \<noteq> ''.'') (split_slash p)"

section \<open>Data\<close>

text \<open>
  What the annotation service returns. A localization carries its identifier, its frame
  index, a normalized box and a dictionary of attributes; a track (a state object) carries
  localizations; a media has a name, an identifier and pixel dimensions.
  The coordinates are Python floats: a value of type \<open>real\<close> stands for a finite float.
\<close>

record localization =
  l_id :: int
  l_frame :: int
  l_x :: real
  l_y :: real
  l_width :: real
  l_height :: real
  l_attributes :: "string \<rightharpoonup> string"

record track =
  t_localizations :: "localization list"

record media =
  m_name :: string
  m_id :: int
  m_width :: int
  m_height :: int

text \<open>
  The client of the service, an external collaborator (the project identifier is fixed by
  the notebook). Each of its four operations answers with data or raises; \<open>None\<close>
  is a call that raises.
\<close>

record api =
  get_media_list :: "media list option"
  get_localization_list :: "int \<Rightarrow> localization list option"
  get_state_list :: "int \<Rightarrow> track list option"
  get_frame :: "int \<Rightarrow> int \<Rightarrow> string option"

text \<open>
  The exceptions: those of the notebook's own subscripts, those of the file operations,
  the one of the client of the service, and the one of the plotting library.
\<close>

datatype error =
    KeyError | IndexError
  | FileNotFoundError | NotADirectoryError | IsADirectoryError | FileExistsError
  | ApiException | PlotError

text \<open>One element of \<^verbatim>\<open>media_w_localizations\<close>: the six-element list built by the collector.\<close>

record entry =
  e_name :: string
  e_id :: int
  e_width :: int
  e_height :: int
  e_localizations :: "localization list"
  e_loc_id_to_class :: "int \<rightharpoonup> string"

text \<open>The dictionary built for each localization by the reshaper.\<close>

record bbox =
  xmin :: int
  ymin :: int
  xmax :: int
  ymax :: int

record loc_dict =
  ld_id :: int
  ld_frame :: int
  ld_bbox :: bbox
  ld_path :: string
  ld_class_category :: string

text \<open>
  The Pascal-VOC writer, an external collaborator: a document is what the constructor
  received and the objects added to it, in the order of the calls.
\<close>

record voc_object =
  obj_name :: string
  obj_xmin :: int
  obj_ymin :: int
  obj_xmax :: int
  obj_ymax :: int

record writer =
  wr_path :: string
  wr_width :: int
  wr_height :: int
  wr_objects :: "voc_object list"

text \<open>
  The state outside the notebook: the regular files and the directories of the local
  machine, each under its resolved path, the frames asked from the service (media
  identifier and frame index, in call order) and the lines printed. A step returns its
  result, or the exception that stopped it, together with the state it leaves.
\<close>

datatype fcontent = Jpeg string | Xml writer

record world =
  files :: "string list \<rightharpoonup> fcontent"
  dirs :: "string list set"
  fetched :: "(int \<times> int) list"
  console :: "string list"

definition ROOT :: string where "ROOT = ''./Data/''"
definition IMAGE_DIR :: string where "IMAGE_DIR = ROOT @ ''JPEGImages/''"
definition LABEL_DIR :: string where "LABEL_DIR = ROOT @ ''Annotations/''"

section \<open>Files and directories\<close>

text \<open>
  The working directory and the root are directories. \<^verbatim>\<open>os.path.exists\<close> holds of a
  regular file and of a directory.
\<close>

definition is_dir :: "world \<Rightarrow> string list \<Rightarrow> bool" where
  "is_dir w q = (q = [] \<or> q = [''/''] \<or> q \<in> dirs w)"

definition path_exists :: "world \<Rightarrow> string \<Rightarrow> bool" where
  "path_exists w p = (files w (resolve p) \<noteq> None \<or> is_dir w (resolve p))"

text \<open>
  Creating an entry at a path needs the directory that holds it: without it the
  operating system refuses, with NotADirectoryError when a regular file is in the way and
  with FileNotFoundError otherwise.
\<close>

definition parent_error :: "world \<Rightarrow> string list \<Rightarrow> error option" where
  "parent_error w q =
     (if is_dir w (butlast q) then None
      else if list_ex (\<lambda>r. files w r \<noteq> None) (prefixes (butlast q)) then Some NotADirectoryError
      else Some FileNotFoundError)"

text \<open>
  \<^verbatim>\<open>os.makedirs(name, exist_ok=True)\<close>: the directory and its missing ancestors are
  created; a regular file in the place of an ancestor or of the directory itself raises.
\<close>

definition makedirs :: "string \<Rightarrow> world \<Rightarrow> (error + unit) \<times> world" where
  "makedirs name w =
     (let q = resolve name
      in if list_ex (\<lambda>r. files w r \<noteq> None) (butlast (prefixes q)) then (Inl NotADirectoryError, w)
         else if files w q \<noteq> None then (Inl FileExistsError, w)
         else (Inr (), w\<lparr>dirs := dirs w \<union> set (prefixes q)\<rparr>))"

text \<open>Cell 7: the three directories, one call after the other.\<close>

definition cell7 :: "world \<Rightarrow> (error + unit) \<times> world" where
  "cell7 w =
     (case makedirs ROOT w of
        (Inl e, w1) \<Rightarrow> (Inl e, w1)
      | (Inr _, w1) \<Rightarrow>
          (case makedirs IMAGE_DIR w1 of
             (Inl e, w2) \<Rightarrow> (Inl e, w2)
           | (Inr _, w2) \<Rightarrow> makedirs LABEL_DIR w2))"

section \<open>Frame download\<close>

text \<open>
  \<^verbatim>\<open>download_image\<close>. When the flag is set and nothing is at \<open>dst\<close>, the frame is
  asked from the service, which may raise, and \<^verbatim>\<open>shutil.move(src, dst)\<close> puts the
  image at \<open>dst\<close>, which raises when the directory of \<open>dst\<close> is missing (the
  temporary file of the client is not part of the state).
\<close>

definition download_image ::
  "int \<Rightarrow> string \<Rightarrow> string \<Rightarrow> api \<Rightarrow> int \<Rightarrow> bool \<Rightarrow> world \<Rightarrow> (error + string) \<times> world" where
  "download_image frame media_name media_dir api media_id download w =
     (let dst = media_dir @ split_dot_0 media_name @ ''_'' @ str_int frame @ ''.jpg''
      in if \<not> path_exists w dst \<and> download
         then (let w1 = w\<lparr>fetched := fetched w @ [(media_id, frame)]\<rparr>
               in case get_frame api media_id frame of
                    None \<Rightarrow> (Inl ApiException, w1)
                  | Some src \<Rightarrow>
                      (case parent_error w1 (resolve dst) of
                         Some e \<Rightarrow> (Inl e, w1)
                       | None \<Rightarrow> (Inr dst, w1\<lparr>files := (files w1)(resolve dst \<mapsto> Jpeg src)\<rparr>)))
         else (Inr dst, w))"

text \<open>
  The worker pool of cell 23 runs one \<^verbatim>\<open>download_image\<close> for each frame of
  \<^verbatim>\<open>frames_w_localizations\<close>; a call that raises keeps its exception, the other
  calls run all the same, and the pool waits for all of them. The calls are made here one
  after the other, in the order of the frames (two frames have two destinations). Then \<^verbatim>\<open>future.result()\<close> is read in
  that order, and the first kept exception is raised.
\<close>

fun download_frames ::
  "int list \<Rightarrow> string \<Rightarrow> api \<Rightarrow> int \<Rightarrow> bool \<Rightarrow> world \<Rightarrow> (error + string) list \<times> world" where
  "download_frames [] media_name api media_id download w = ([], w)"
| "download_frames (frame # frames) media_name api media_id download w =
     (let (future, w1) = download_image frame media_name IMAGE_DIR api media_id download w;
          (futures, w2) = download_frames frames media_name api media_id download w1
      in (future # futures, w2))"

fun results :: "(error + 'a) list \<Rightarrow> error + 'a list" where
  "results [] = Inr []"
| "results (Inl e # futures) = Inl e"
| "results (Inr x # futures) =
     (case results futures of Inl e \<Rightarrow> Inl e | Inr xs \<Rightarrow> Inr (x # xs))"

section \<open>Media selection and localization collection\<close>

definition print :: "string \<Rightarrow> world \<Rightarrow> world" where
  "print line w = w\<lparr>console := console w @ [line]\<rparr>"

text \<open>Cell 15: one line for each requested name.\<close>

fun cell15 :: "string list \<Rightarrow> string list \<Rightarrow> world \<Rightarrow> world" where
  "cell15 [] medias_names w = w"
| "cell15 (media # MEDIA_LIST) medias_names w =
     cell15 MEDIA_LIST medias_names
       (if media \<in> set medias_names
        then print (''This media WAS found: '' @ media) w
        else print (''This media WASN'' @ [CHR 0x27] @ ''T found: '' @ media) w)"

text \<open>
  Cell 18, for one media: the lookup from localization identifier to class, the list of
  kept localizations, and the global list of labels, as the two loops update them.
\<close>

record collector =
  loc_id_to_class :: "int \<rightharpoonup> string"
  media_localizations :: "localization list"
  class_labels :: "string list"

text \<open>
  The loop over the localizations of one track. The test reads the key
  \<^verbatim>\<open>"ScientifcName"\<close>, the subscript the key \<^verbatim>\<open>"ScientificName"\<close>; a subscript
  with an absent key raises KeyError.
\<close>

fun track_localizations_loop :: "localization list \<Rightarrow> collector \<Rightarrow> error + collector" where
  "track_localizations_loop [] c = Inr c"
| "track_localizations_loop (localization # rest) c =
     (if l_attributes localization ''ScientifcName'' \<noteq> None
      then (case l_attributes localization ''ScientificName'' of
              None \<Rightarrow> Inl KeyError
            | Some class_category \<Rightarrow>
                track_localizations_loop rest
                  (c\<lparr>loc_id_to_class := (loc_id_to_class c)(l_id localization \<mapsto> class_category),
                     media_localizations := media_localizations c @ [localization],
                     class_labels := class_labels c @ [class_category]\<rparr>))
      else track_localizations_loop rest c)"

fun tracks_loop :: "track list \<Rightarrow> collector \<Rightarrow> error + collector" where
  "tracks_loop [] c = Inr c"
| "tracks_loop (track # tracks) c =
     (case track_localizations_loop (t_localizations track) c of
        Inl e \<Rightarrow> Inl e
      | Inr c1 \<Rightarrow> tracks_loop tracks c1)"

text \<open>The loop over the standalone localizations: test and subscript read the same key.\<close>

fun localizations_loop :: "localization list \<Rightarrow> collector \<Rightarrow> error + collector" where
  "localizations_loop [] c = Inr c"
| "localizations_loop (localization # rest) c =
     (if l_attributes localization ''ScientificName'' \<noteq> None
      then (case l_attributes localization ''ScientificName'' of
              None \<Rightarrow> Inl KeyError
            | Some class_category \<Rightarrow>
                localizations_loop rest
                  (c\<lparr>loc_id_to_class := (loc_id_to_class c)(l_id localization \<mapsto> class_category),
                     media_localizations := media_localizations c @ [localization],
                     class_labels := class_labels c @ [class_category]\<rparr>))
      else localizations_loop rest c)"

text \<open>The body of the loop of cell 18 for a media that is in \<^verbatim>\<open>MEDIA_LIST\<close>.\<close>

definition collect_media ::
  "track list \<Rightarrow> localization list \<Rightarrow> string list \<Rightarrow> error + collector" where
  "collect_media tracks localizations labels =
     (case tracks_loop tracks
             \<lparr>loc_id_to_class = Map.empty, media_localizations = [], class_labels = labels\<rparr> of
        Inl e \<Rightarrow> Inl e
      | Inr c1 \<Rightarrow> localizations_loop localizations c1)"

text \<open>
  Cell 18. The list of labels is the notebook's \<^verbatim>\<open>ALL_CLASSES_LIST\<close>.
\<close>

fun cell18 ::
  "api \<Rightarrow> string list \<Rightarrow> media list \<Rightarrow> entry list \<Rightarrow> string list \<Rightarrow> world
     \<Rightarrow> (error + entry list \<times> string list) \<times> world" where
  "cell18 api MEDIA_LIST [] media_w_localizations ALL_CLASSES_LIST w =
     (Inr (media_w_localizations, ALL_CLASSES_LIST), w)"
| "cell18 api MEDIA_LIST (media # medias) media_w_localizations ALL_CLASSES_LIST w =
     (if m_name media \<notin> set MEDIA_LIST
      then cell18 api MEDIA_LIST medias media_w_localizations ALL_CLASSES_LIST w
      else
        (let w1 = print (''Collecting metadata for:  '' @ m_name media) w
         in case get_localization_list api (m_id media) of
              None \<Rightarrow> (Inl ApiException, w1)
            | Some localizations \<Rightarrow>
                (case get_state_list api (m_id media) of
                   None \<Rightarrow> (Inl ApiException, w1)
                 | Some tracks \<Rightarrow>
                     (case collect_media tracks localizations ALL_CLASSES_LIST of
                        Inl e \<Rightarrow> (Inl e, w1)
                      | Inr c \<Rightarrow>
                          cell18 api MEDIA_LIST medias
                            (media_w_localizations @
                               [\<lparr>e_name = replace_str '':'' ''_'' (m_name media),
                                 e_id = m_id media,
                                 e_width = m_width media,
                                 e_height = m_height media,
                                 e_localizations = media_localizations c,
                                 e_loc_id_to_class = loc_id_to_class c\<rparr>])
                            (class_labels c) w1))))"

section \<open>Reshaping and annotation writing\<close>

text \<open>
  \<^verbatim>\<open>int(v)\<close> on a finite float truncates towards zero. The product of a float and an
  integer, \<^verbatim>\<open>localization.x * media_width\<close>, is rounded by the machine: it is the
  parameter \<open>fmul\<close> of the reshaper, and the theorems hold for every such operation.
\<close>

definition py_int :: "real \<Rightarrow> int" where
  "py_int v = (if v < 0 then \<lceil>v\<rceil> else \<lfloor>v\<rfloor>)"

text \<open>
  The two path expressions of cell 23: \<^verbatim>\<open>frame_path\<close>, built from the media name and
  the frame index, and \<^verbatim>\<open>xml_path\<close>, built from the image path of a frame.
\<close>

definition frame_path :: "string \<Rightarrow> int \<Rightarrow> string" where
  "frame_path media_name frame_id =
     IMAGE_DIR @ split_dot_0 media_name @ ''_'' @ str_int frame_id @ ''.jpg''"

definition xml_path :: "string \<Rightarrow> string" where
  "xml_path img_path = LABEL_DIR @ replace_str ''.jpg'' ''.xml'' (basename img_path)"

text \<open>The body of the first loop of cell 23: one localization becomes one dictionary.\<close>

definition reshape ::
  "(real \<Rightarrow> int \<Rightarrow> real) \<Rightarrow> string \<Rightarrow> int \<Rightarrow> int \<Rightarrow> (int \<rightharpoonup> string) \<Rightarrow> localization \<Rightarrow> loc_dict"
  where
  "reshape fmul media_name media_width media_height lookup localization =
     (let frame_id = l_frame localization;
          x0 = py_int (fmul (l_x localization) media_width);
          y0 = py_int (fmul (l_y localization) media_height);
          x1 = py_int (fmul (l_width localization) media_width) + x0;
          y1 = py_int (fmul (l_height localization) media_height) + y0
      in \<lparr>ld_id = l_id localization,
          ld_frame = l_frame localization,
          ld_bbox = \<lparr>xmin = x0, ymin = y0, xmax = x1, ymax = y1\<rparr>,
          ld_path = frame_path media_name frame_id,
          ld_class_category =
            (case lookup (l_id localization) of
               Some class_category \<Rightarrow> class_category
             | None \<Rightarrow> ''Unknown'')\<rparr>)"

text \<open>The second loop of cell 23: the dictionary from frame to the entries of that frame.\<close>

fun group_by_frame :: "loc_dict list \<Rightarrow> (int \<rightharpoonup> loc_dict list) \<Rightarrow> (int \<rightharpoonup> loc_dict list)" where
  "group_by_frame [] frame_localizations = frame_localizations"
| "group_by_frame (entry # locs) frame_localizations =
     group_by_frame locs
       (case frame_localizations (ld_frame entry) of
          Some es \<Rightarrow> frame_localizations(ld_frame entry \<mapsto> es @ [entry])
        | None \<Rightarrow> frame_localizations(ld_frame entry \<mapsto> [entry]))"

text \<open>
  The constructor \<^verbatim>\<open>Writer(path, width=..., height=...)\<close>, \<^verbatim>\<open>writer.addObject\<close>,
  the loop of cell 23 that adds one object for each entry of a frame, and
  \<^verbatim>\<open>writer.save\<close>, which opens the file for writing: it overwrites a regular file,
  and raises when the path is a directory or the directory that holds it is missing.
\<close>

definition Writer :: "string \<Rightarrow> int \<Rightarrow> int \<Rightarrow> writer" where
  "Writer path width height =
     \<lparr>wr_path = path, wr_width = width, wr_height = height, wr_objects = []\<rparr>"

definition addObject :: "string \<Rightarrow> int \<Rightarrow> int \<Rightarrow> int \<Rightarrow> int \<Rightarrow> writer \<Rightarrow> writer" where
  "addObject name x0 y0 x1 y1 wr =
     wr\<lparr>wr_objects := wr_objects wr @
          [\<lparr>obj_name = name, obj_xmin = x0, obj_ymin = y0, obj_xmax = x1, obj_ymax = y1\<rparr>]\<rparr>"

fun add_objects :: "loc_dict list \<Rightarrow> writer \<Rightarrow> writer" where
  "add_objects [] wr = wr"
| "add_objects (loc # locs) wr =
     add_objects locs
       (let bbox = ld_bbox loc
        in addObject (ld_class_category loc) (xmin bbox) (ymin bbox) (xmax bbox) (ymax bbox) wr)"

definition save :: "string \<Rightarrow> writer \<Rightarrow> world \<Rightarrow> (error + unit) \<times> world" where
  "save path wr w =
     (let q = resolve path
      in case parent_error w q of
           Some e \<Rightarrow> (Inl e, w)
         | None \<Rightarrow>
             if is_dir w q then (Inl IsADirectoryError, w)
             else (Inr (), w\<lparr>files := (files w)(q \<mapsto> Xml wr)\<rparr>))"

text \<open>
  The third loop of cell 23, over the frames. The subscripts
  \<^verbatim>\<open>frame_localizations[frame]\<close> and \<^verbatim>\<open>locs[0]\<close> raise on an absent key and on an
  empty list.
\<close>

fun emit_frames ::
  "int list \<Rightarrow> (int \<rightharpoonup> loc_dict list) \<Rightarrow> int \<Rightarrow> int \<Rightarrow> world \<Rightarrow> (error + unit) \<times> world" where
  "emit_frames [] frame_localizations media_width media_height w = (Inr (), w)"
| "emit_frames (frame # frames) frame_localizations media_width media_height w =
     (case frame_localizations frame of
        None \<Rightarrow> (Inl KeyError, w)
      | Some locs \<Rightarrow>
          (case locs of
             [] \<Rightarrow> (Inl IndexError, w)
           | loc0 # _ \<Rightarrow>
               (let img_path = ld_path loc0;
                    wr = add_objects locs (Writer img_path media_width media_height)
                in case save (xml_path img_path) wr w of
                     (Inl e, w1) \<Rightarrow> (Inl e, w1)
                   | (Inr _, w1) \<Rightarrow>
                       emit_frames frames frame_localizations media_width media_height w1)))"

text \<open>
  The body of the outer loop of cell 23, for one entry. \<^verbatim>\<open>list(set(...))\<close> holds each
  frame once, in an order Python does not fix; the model takes the order of first
  occurrence.
\<close>

definition process_media ::
  "(real \<Rightarrow> int \<Rightarrow> real) \<Rightarrow> bool \<Rightarrow> api \<Rightarrow> entry \<Rightarrow> world \<Rightarrow> (error + unit) \<times> world" where
  "process_media fmul DOWNLOAD api media w =
     (let media_name = e_name media;
          media_id = e_id media;
          media_width = e_width media;
          media_height = e_height media;
          localizations = e_localizations media;
          lookup = e_loc_id_to_class media;
          w1 = print (''Downloading frames and annotations for:  '' @ media_name) w;
          frames_w_localizations = remdups (map l_frame localizations);
          (futures, w2) =
             download_frames frames_w_localizations media_name api media_id DOWNLOAD w1
      in case results futures of
           Inl e \<Rightarrow> (Inl e, w2)
         | Inr img_paths \<Rightarrow>
             (let locs = map (reshape fmul media_name media_width media_height lookup)
                           localizations;
                  frame_localizations = group_by_frame locs Map.empty
              in emit_frames frames_w_localizations frame_localizations media_width
                   media_height w2))"

fun cell23 ::
  "(real \<Rightarrow> int \<Rightarrow> real) \<Rightarrow> bool \<Rightarrow> api \<Rightarrow> entry list \<Rightarrow> world \<Rightarrow> (error + unit) \<times> world" where
  "cell23 fmul DOWNLOAD api [] w = (Inr (), w)"
| "cell23 fmul DOWNLOAD api (media # rest) w =
     (case process_media fmul DOWNLOAD api media w of
        (Inl e, w1) \<Rightarrow> (Inl e, w1)
      | (Inr _, w1) \<Rightarrow> cell23 fmul DOWNLOAD api rest w1)"

section \<open>The notebook\<close>

text \<open>
  Cell 19 plots the labels with the plotting library, an external collaborator: whether
  it displays a given list or raises is the parameter \<open>bar_plot\<close> of the run. Cell 21
  displays \<^verbatim>\<open>media_w_localizations[0][4][0]\<close>, the first localization of the first
  entry; each subscript raises IndexError when there is no such element. Neither cell
  changes a variable or a file.
\<close>

definition cell21 :: "entry list \<Rightarrow> error + localization" where
  "cell21 media_w_localizations =
     (case media_w_localizations of
        [] \<Rightarrow> Inl IndexError
      | media # _ \<Rightarrow>
          (case e_localizations media of
             [] \<Rightarrow> Inl IndexError
           | localization # _ \<Rightarrow> Inr localization))"

text \<open>
  The cells in the order of the notebook: 7 (directories), 14 (the media of the project),
  15 (found or not), 17 and 18 (collection), 19 (plot), 21 (display), 23 (download,
  reshaping, annotation files). The run stops at the first exception.
\<close>

definition run ::
  "(real \<Rightarrow> int \<Rightarrow> real) \<Rightarrow> (string list \<Rightarrow> bool) \<Rightarrow> api \<Rightarrow> string list \<Rightarrow> bool \<Rightarrow> world
     \<Rightarrow> (error + unit) \<times> world" where
  "run fmul bar_plot api MEDIA_LIST DOWNLOAD w =
     (case cell7 w of
        (Inl e, w0) \<Rightarrow> (Inl e, w0)
      | (Inr _, w0) \<Rightarrow>
          (case get_media_list api of
             None \<Rightarrow> (Inl ApiException, w0)
           | Some medias \<Rightarrow>
               (let medias_names = map m_name medias;
                    w1 = print (''Number of medias: '' @ str_int (int (length medias))) w0;
                    w2 = cell15 MEDIA_LIST medias_names w1
                in case cell18 api MEDIA_LIST medias [] [] w2 of
                     (Inl e, w3) \<Rightarrow> (Inl e, w3)
                   | (Inr (media_w_localizations, ALL_CLASSES_LIST), w3) \<Rightarrow>
                       if \<not> bar_plot ALL_CLASSES_LIST then (Inl PlotError, w3)
                       else (case cell21 media_w_localizations of
                               Inl e \<Rightarrow> (Inl e, w3)
                             | Inr _ \<Rightarrow> cell23 fmul DOWNLOAD api media_w_localizations w3))))"


section \<open>Example data\<close>

text \<open>
  A project with one media, \<^verbatim>\<open>dive:1.mov\<close>, 100 by 50 pixels. The localization
  \<open>urchin\<close> carries both attribute keys and is returned inside a track and in the
  standalone list; \<open>fish\<close> carries the key \<^verbatim>\<open>ScientificName\<close> only. The product of
  the reshaper is the exact one, and the plot is always displayed.
\<close>

definition exact_mul :: "real \<Rightarrow> int \<Rightarrow> real" where
  "exact_mul a b = a * of_int b"

definition always_plots :: "string list \<Rightarrow> bool" where
  "always_plots labels = True"

definition urchin :: localization where
  "urchin = \<lparr>l_id = 1, l_frame = 3, l_x = 1/4, l_y = 1/4, l_width = 1/2, l_height = 1/2,
             l_attributes = [''ScientificName'' \<mapsto> ''Urchin'', ''ScientifcName'' \<mapsto> ''Urchin'']\<rparr>"

definition fish :: localization where
  "fish = \<lparr>l_id = 2, l_frame = 3, l_x = 9/10, l_y = 0, l_width = 1/2, l_height = 0,
           l_attributes = [''ScientificName'' \<mapsto> ''Fish'']\<rparr>"

definition dive :: media where
  "dive = \<lparr>m_name = ''dive:1.mov'', m_id = 11, m_width = 100, m_height = 50\<rparr>"

definition project :: api where
  "project = \<lparr>get_media_list = Some [dive],
              get_localization_list =
                (\<lambda>media_id. if media_id = 11 then Some [urchin, fish] else Some []),
              get_state_list =
                (\<lambda>media_id. if media_id = 11 then Some [\<lparr>t_localizations = [urchin]\<rparr>] else Some []),
              get_frame = (\<lambda>media_id frame. Some ''jpeg-bytes'')\<rparr>"

text \<open>An empty machine, and the same after cell 7.\<close>

definition fresh :: world where
  "fresh = \<lparr>files = Map.empty, dirs = {}, fetched = [], console = []\<rparr>"

definition prepared :: world where
  "prepared = \<lparr>files = Map.empty,
               dirs = {[], [''Data''], [''Data'', ''JPEGImages''], [''Data'', ''Annotations'']},
               fetched = [], console = []\<rparr>"

text \<open>
  Entries as cell 23 may receive them: one with an empty lookup, and the one the
  collector builds for the project above.
\<close>

definition no_lookup :: entry where
  "no_lookup = \<lparr>e_name = ''dive_1.mov'', e_id = 11, e_width = 100, e_height = 50,
                e_localizations = [fish], e_loc_id_to_class = Map.empty\<rparr>"


text \<open>
  A project whose one media has a slash in its name, and the entry built for it; a
  machine that already has the directory \<^verbatim>\<open>./Data/JPEGImages/a/\<close>.
\<close>

definition nested_project :: api where
  "nested_project =
     \<lparr>get_media_list = Some [\<lparr>m_name = ''a/b.mov'', m_id = 12, m_width = 100, m_height = 50\<rparr>],
      get_localization_list = (\<lambda>media_id. Some [fish]),
      get_state_list = (\<lambda>media_id. Some []),
      get_frame = (\<lambda>media_id frame. Some ''jpeg-bytes'')\<rparr>"






section \<open>File names\<close>

text \<open>
  The image path of a frame ends in \<^verbatim>\<open>.jpg\<close> and has no other dot after the last
  slash, so the replacement in \<open>xml_path\<close> changes the extension only; and decimal
  printing is injective, so the frames of one media have distinct paths.
\<close>

lemma replace_jpg_suffix:
  "CHR ''.'' \<notin> set s \<Longrightarrow> replace_str ''.jpg'' ''.xml'' (s @ ''.jpg'') = s @ ''.xml''"
  by (induction s) auto


lemma basename_append:
  "CHR ''/'' \<notin> set s \<Longrightarrow> basename (p @ s) = basename p @ s"
  by (simp add: basename_def takeWhile_append)

lemma basename_slash: "basename (p @ CHR ''/'' # s) = basename s"
  by (simp add: basename_def takeWhile_tail)

lemma set_basename: "set (basename p) \<subseteq> set p"
  unfolding basename_def by (auto dest: set_takeWhileD)

lemma split_dot_0_no_dot: "CHR ''.'' \<notin> set (split_dot_0 s)"
  unfolding split_dot_0_def by (auto dest: set_takeWhileD)

lemma digit_char_set: "d < 10 \<Longrightarrow> digit_char d \<in> set ''0123456789''"
  unfolding digit_char_def by (rule nth_mem) simp

lemma set_str_nat: "set (str_nat n) \<subseteq> set ''0123456789''"
proof (induction n rule: str_nat.induct)
  case (1 n)
  show ?case
  proof (cases "n < 10")
    case True
    then show ?thesis using digit_char_set [of n] by (subst str_nat.simps) simp
  next
    case False
    have "n mod 10 < 10" by simp
    from digit_char_set [OF this] 1 False show ?thesis
      by (subst str_nat.simps) simp
  qed
qed

lemma str_nat_not_Nil: "str_nat n \<noteq> []"
  by (subst str_nat.simps) simp

lemma digit_char_inj: "a < 10 \<Longrightarrow> b < 10 \<Longrightarrow> digit_char a = digit_char b \<Longrightarrow> a = b"
  unfolding digit_char_def
  by (subst (asm) nth_eq_iff_index_eq) simp_all

lemma str_nat_inj: "str_nat n = str_nat m \<Longrightarrow> n = m"
proof (induction n arbitrary: m rule: str_nat.induct)
  case (1 n)
  show ?case
  proof (cases "n < 10")
    case n: True
    show ?thesis
    proof (cases "m < 10")
      case True
      with n 1(2) show ?thesis
        by (simp add: str_nat.simps [of n] str_nat.simps [of m] digit_char_inj)
    next
      case False
      with n 1(2) str_nat_not_Nil [of "m div 10"] show ?thesis
        by (simp add: str_nat.simps [of n] str_nat.simps [of m] Cons_eq_append_conv)
    qed
  next
    case n: False
    show ?thesis
    proof (cases "m < 10")
      case True
      with n 1(2) str_nat_not_Nil [of "n div 10"] show ?thesis
        by (simp add: str_nat.simps [of n] str_nat.simps [of m] append_eq_Cons_conv)
    next
      case False
      with n 1(2) have e: "str_nat (n div 10) = str_nat (m div 10)"
         and d: "digit_char (n mod 10) = digit_char (m mod 10)"
        by (simp_all add: str_nat.simps [of n] str_nat.simps [of m])
      from 1(1) [OF n e] have "n div 10 = m div 10" .
      moreover from d have "n mod 10 = m mod 10" by (intro digit_char_inj) simp_all
      ultimately show ?thesis by (metis div_mult_mod_eq)
    qed
  qed
qed

lemma str_nat_no_minus: "str_nat n \<noteq> CHR ''-'' # s"
proof
  assume "str_nat n = CHR ''-'' # s"
  then have "CHR ''-'' \<in> set (str_nat n)" by simp
  with set_str_nat [of n] have "CHR ''-'' \<in> set ''0123456789''" by blast
  then show False by simp
qed

lemma str_int_inj: "str_int i = str_int j \<Longrightarrow> i = j"
proof -
  assume e: "str_int i = str_int j"
  consider "i < 0" "j < 0" | "i < 0" "\<not> j < 0" | "\<not> i < 0" "j < 0" | "\<not> i < 0" "\<not> j < 0"
    by blast
  then show ?thesis
  proof cases
    case 1
    with e have "str_nat (nat (- i)) = str_nat (nat (- j))" by (simp add: str_int_def)
    from str_nat_inj [OF this] 1 show ?thesis by simp
  next
    case 2
    with e have "str_nat (nat j) = CHR ''-'' # str_nat (nat (- i))" by (simp add: str_int_def)
    with str_nat_no_minus show ?thesis by blast
  next
    case 3
    with e have "str_nat (nat i) = CHR ''-'' # str_nat (nat (- j))" by (simp add: str_int_def)
    with str_nat_no_minus show ?thesis by blast
  next
    case 4
    with e have "str_nat (nat i) = str_nat (nat j)" by (simp add: str_int_def)
    from str_nat_inj [OF this] 4 show ?thesis by simp
  qed
qed

lemma set_str_int: "set (str_int i) \<subseteq> set ''-0123456789''"
proof (cases "i < 0")
  case True
  with set_str_nat [of "nat (- i)"] show ?thesis by (simp add: str_int_def subset_insertI2)
next
  case False
  with set_str_nat [of "nat i"] show ?thesis by (simp add: str_int_def subset_insertI2)
qed

lemma str_int_no_dot: "CHR ''.'' \<notin> set (str_int i)"
proof
  assume "CHR ''.'' \<in> set (str_int i)"
  with set_str_int [of i] have "CHR ''.'' \<in> set ''-0123456789''" by blast
  then show False by simp
qed

lemma str_int_no_slash: "CHR ''/'' \<notin> set (str_int i)"
proof
  assume "CHR ''/'' \<in> set (str_int i)"
  with set_str_int [of i] have "CHR ''/'' \<in> set ''-0123456789''" by blast
  then show False by simp
qed

lemma xml_path_frame_path:
  "xml_path (frame_path media_name frame) =
     LABEL_DIR @ basename (split_dot_0 media_name) @ ''_'' @ str_int frame @ ''.xml''"
proof -
  let ?stem = "split_dot_0 media_name"
  have "basename (frame_path media_name frame) =
          basename (''./Data/JPEGImages'' @ CHR ''/'' # ?stem) @ (''_'' @ str_int frame @ ''.jpg'')"
    unfolding frame_path_def IMAGE_DIR_def ROOT_def
    using basename_append [of "''_'' @ str_int frame @ ''.jpg''" "''./Data/JPEGImages/'' @ ?stem"]
      str_int_no_slash [of frame] by simp
  also have "\<dots> = (basename ?stem @ ''_'' @ str_int frame) @ ''.jpg''"
    by (simp only: basename_slash append_assoc)
  finally have b: "basename (frame_path media_name frame) =
      (basename ?stem @ ''_'' @ str_int frame) @ ''.jpg''" .
  have "CHR ''.'' \<notin> set (basename ?stem @ ''_'' @ str_int frame)"
    using set_basename [of ?stem] split_dot_0_no_dot [of media_name] str_int_no_dot [of frame]
    by auto
  from replace_jpg_suffix [OF this] show ?thesis
    unfolding xml_path_def b by simp
qed

lemma xml_path_inj:
  "xml_path (frame_path media_name f) = xml_path (frame_path media_name g) \<Longrightarrow> f = g"
  by (simp add: xml_path_frame_path str_int_inj)

section \<open>Bounding boxes\<close>

lemma py_int_round: "\<bar>py_int v - round v\<bar> \<le> 1"
  unfolding py_int_def round_def by (auto; linarith)

text \<open>
  Claim C1. The reshaper turns the normalized box \<open>(x, y, width, height)\<close> of a
  localization and the media dimensions \<open>(W, H)\<close> into
  \<open>xmin = int(x * W)\<close>, \<open>ymin = int(y * H)\<close>, \<open>xmax = int(width * W) + xmin\<close>,
  \<open>ymax = int(height * H) + ymin\<close>, with no clamping and no validation; hence
  \<open>xmax - xmin\<close> is the truncation of \<open>width * W\<close>, at most one away from its
  rounding, and likewise for \<open>ymax - ymin\<close>.
\<close>

theorem C1_bbox_conversion:
  "ld_bbox (reshape fmul media_name W H lookup l) =
     \<lparr>xmin = py_int (fmul (l_x l) W),
      ymin = py_int (fmul (l_y l) H),
      xmax = py_int (fmul (l_width l) W) + py_int (fmul (l_x l) W),
      ymax = py_int (fmul (l_height l) H) + py_int (fmul (l_y l) H)\<rparr>
   \<and> xmax (ld_bbox (reshape fmul media_name W H lookup l))
       - xmin (ld_bbox (reshape fmul media_name W H lookup l)) = py_int (fmul (l_width l) W)
   \<and> ymax (ld_bbox (reshape fmul media_name W H lookup l))
       - ymin (ld_bbox (reshape fmul media_name W H lookup l)) = py_int (fmul (l_height l) H)
   \<and> \<bar>xmax (ld_bbox (reshape fmul media_name W H lookup l))
       - xmin (ld_bbox (reshape fmul media_name W H lookup l)) - round (fmul (l_width l) W)\<bar> \<le> 1
   \<and> \<bar>ymax (ld_bbox (reshape fmul media_name W H lookup l))
       - ymin (ld_bbox (reshape fmul media_name W H lookup l)) - round (fmul (l_height l) H)\<bar> \<le> 1"
  by (simp add: reshape_def Let_def py_int_round)

text \<open>
  With the exact product for \<open>fmul\<close>: a box that starts at 0.9 and is 0.5 wide in a
  media 100 pixels wide ends at pixel 140, beyond the image; a box of width 0 has
  \<open>xmax = xmin\<close>.
\<close>

lemma bbox_not_clamped:
  "ld_bbox (reshape (\<lambda>a b. a * of_int b) ''m.mov'' 100 100 Map.empty
      \<lparr>l_id = 1, l_frame = 0, l_x = 9/10, l_y = 0, l_width = 1/2, l_height = 0,
       l_attributes = Map.empty\<rparr>)
   = \<lparr>xmin = 90, ymin = 0, xmax = 140, ymax = 0\<rparr>"
  by (simp add: reshape_def Let_def py_int_def)

section \<open>The collector\<close>

text \<open>
  What the two loops of cell 18 keep when they return: the track loop the localizations
  that carry the key \<^verbatim>\<open>ScientifcName\<close>, the standalone loop those that carry
  \<^verbatim>\<open>ScientificName\<close>, each in the order of arrival; the lookup has exactly the
  identifiers of the kept localizations.
\<close>

lemma track_localizations_loop_Inr:
  "track_localizations_loop ls c = Inr c' \<Longrightarrow>
     media_localizations c' =
       media_localizations c @ filter (\<lambda>l. l_attributes l ''ScientifcName'' \<noteq> None) ls
     \<and> dom (loc_id_to_class c') =
       dom (loc_id_to_class c) \<union> l_id ` set (filter (\<lambda>l. l_attributes l ''ScientifcName'' \<noteq> None) ls)"
proof (induction ls arbitrary: c)
  case Nil
  then show ?case by simp
next
  case (Cons l ls)
  show ?case
  proof (cases "l_attributes l ''ScientifcName'' \<noteq> None")
    case False
    with Cons.prems have "track_localizations_loop ls c = Inr c'" by simp
    from Cons.IH [OF this] False show ?thesis by auto
  next
    case True
    with Cons.prems obtain v where v: "l_attributes l ''ScientificName'' = Some v"
      by (cases "l_attributes l ''ScientificName''") auto
    let ?c = "c\<lparr>loc_id_to_class := (loc_id_to_class c)(l_id l \<mapsto> v),
                 media_localizations := media_localizations c @ [l],
                 class_labels := class_labels c @ [v]\<rparr>"
    from Cons.prems True v have "track_localizations_loop ls ?c = Inr c'" by simp
    from Cons.IH [OF this] True show ?thesis by (auto simp: dom_def split: if_splits)
  qed
qed

lemma tracks_loop_Inr:
  "tracks_loop tracks c = Inr c' \<Longrightarrow>
     media_localizations c' =
       media_localizations c @
         filter (\<lambda>l. l_attributes l ''ScientifcName'' \<noteq> None) (concat (map t_localizations tracks))
     \<and> dom (loc_id_to_class c') =
       dom (loc_id_to_class c) \<union>
         l_id ` set (filter (\<lambda>l. l_attributes l ''ScientifcName'' \<noteq> None)
                       (concat (map t_localizations tracks)))"
proof (induction tracks arbitrary: c)
  case Nil
  then show ?case by simp
next
  case (Cons t tracks)
  from Cons.prems obtain c1 where c1: "track_localizations_loop (t_localizations t) c = Inr c1"
    and r: "tracks_loop tracks c1 = Inr c'"
    by (cases "track_localizations_loop (t_localizations t) c") auto
  from track_localizations_loop_Inr [OF c1] Cons.IH [OF r] show ?case
    by (simp add: image_Un Un_assoc)
qed

lemma localizations_loop_Inr:
  "\<exists>c'. localizations_loop ls c = Inr c' \<and>
     media_localizations c' =
       media_localizations c @ filter (\<lambda>l. l_attributes l ''ScientificName'' \<noteq> None) ls
     \<and> dom (loc_id_to_class c') =
       dom (loc_id_to_class c) \<union> l_id ` set (filter (\<lambda>l. l_attributes l ''ScientificName'' \<noteq> None) ls)"
proof (induction ls arbitrary: c)
  case Nil
  then show ?case by simp
next
  case (Cons l ls)
  show ?case
  proof (cases "l_attributes l ''ScientificName''")
    case None
    with Cons.IH [of c] show ?thesis by auto
  next
    case (Some v)
    let ?c = "c\<lparr>loc_id_to_class := (loc_id_to_class c)(l_id l \<mapsto> v),
                 media_localizations := media_localizations c @ [l],
                 class_labels := class_labels c @ [v]\<rparr>"
    from Cons.IH [of ?c] Some show ?thesis by (auto simp: dom_def split: if_splits)
  qed
qed

lemma collect_media_Inr:
  assumes "collect_media tracks localizations labels = Inr c"
  shows "media_localizations c =
       filter (\<lambda>l. l_attributes l ''ScientifcName'' \<noteq> None) (concat (map t_localizations tracks))
       @ filter (\<lambda>l. l_attributes l ''ScientificName'' \<noteq> None) localizations"
    and "dom (loc_id_to_class c) = l_id ` set (media_localizations c)"
proof -
  let ?c0 = "\<lparr>loc_id_to_class = Map.empty, media_localizations = [], class_labels = labels\<rparr>"
  from assms obtain c1 where c1: "tracks_loop tracks ?c0 = Inr c1"
    and c: "localizations_loop localizations c1 = Inr c"
    by (cases "tracks_loop tracks ?c0") (auto simp: collect_media_def)
  from localizations_loop_Inr [of localizations c1] c
  have l: "media_localizations c =
       media_localizations c1 @ filter (\<lambda>l. l_attributes l ''ScientificName'' \<noteq> None) localizations"
     "dom (loc_id_to_class c) =
       dom (loc_id_to_class c1) \<union> l_id ` set (filter (\<lambda>l. l_attributes l ''ScientificName'' \<noteq> None) localizations)"
    by auto
  from tracks_loop_Inr [OF c1] l
  show "media_localizations c =
       filter (\<lambda>l. l_attributes l ''ScientifcName'' \<noteq> None) (concat (map t_localizations tracks))
       @ filter (\<lambda>l. l_attributes l ''ScientificName'' \<noteq> None) localizations"
    by simp
  from tracks_loop_Inr [OF c1] l
  show "dom (loc_id_to_class c) = l_id ` set (media_localizations c)"
    by (simp add: image_Un)
qed

section \<open>The collector's filter\<close>

text \<open>
  Claim C2 says that the collector keeps exactly the localizations that expose the
  class-category attribute, whether they come from a track or from the standalone list.
  The standalone loop does; the track loop tests the key \<^verbatim>\<open>ScientifcName\<close> and so
  drops a track localization that exposes \<^verbatim>\<open>ScientificName\<close>: the collector run
  on one track holding \<open>fish\<close>, whose class attribute is \<^verbatim>\<open>Fish\<close>, keeps nothing.
\<close>

theorem C2_track_filter:
  "collect_media [\<lparr>t_localizations = [fish]\<rparr>] [] [] =
     Inr \<lparr>loc_id_to_class = Map.empty, media_localizations = [], class_labels = []\<rparr>
   \<and> l_attributes fish ''ScientificName'' = Some ''Fish''"
  by (simp add: collect_media_def fish_def)

text \<open>
  Claim C10. A localization that the standalone loop places in the list of the media
  (one of the standalone list that carries \<^verbatim>\<open>ScientificName\<close>) has its identifier in
  the lookup when the collector returns, so the reshaper gives it the class found there
  and not the fallback.
\<close>

theorem C10_standalone_has_class:
  assumes "collect_media tracks localizations labels = Inr c"
    and "l \<in> set localizations"
    and "l_attributes l ''ScientificName'' \<noteq> None"
  shows "l \<in> set (media_localizations c)
     \<and> (\<exists>class_category. loc_id_to_class c (l_id l) = Some class_category
          \<and> ld_class_category (reshape fmul media_name W H (loc_id_to_class c) l) = class_category)"
proof -
  from assms(2,3) have m: "l \<in> set (media_localizations c)"
    by (simp add: collect_media_Inr(1) [OF assms(1)])
  then have "l_id l \<in> dom (loc_id_to_class c)"
    by (simp add: collect_media_Inr(2) [OF assms(1)])
  then obtain class_category where "loc_id_to_class c (l_id l) = Some class_category"
    by blast
  with m show ?thesis by (simp add: reshape_def Let_def)
qed

text \<open>
  The statement for \<open>fish\<close>, with the track and the standalone list that the example
  project returns for its media.
\<close>

theorem C10_standalone_has_class_witness:
  "\<exists>c. collect_media [\<lparr>t_localizations = [urchin]\<rparr>] [urchin, fish] [] = Inr c
     \<and> fish \<in> set [urchin, fish]
     \<and> l_attributes fish ''ScientificName'' \<noteq> None
     \<and> fish \<in> set (media_localizations c)
     \<and> loc_id_to_class c (l_id fish) = Some ''Fish''
     \<and> ld_class_category (reshape exact_mul ''dive_1.mov'' 100 50 (loc_id_to_class c) fish) = ''Fish''"
proof -
  let ?c = "\<lparr>loc_id_to_class = [1 \<mapsto> ''Urchin'', 2 \<mapsto> ''Fish''],
            media_localizations = [urchin, urchin, fish],
            class_labels = [''Urchin'', ''Urchin'', ''Fish'']\<rparr>"
  have c: "collect_media [\<lparr>t_localizations = [urchin]\<rparr>] [urchin, fish] [] = Inr ?c"
    by (simp add: collect_media_def urchin_def fish_def)
  have l: "fish \<in> set [urchin, fish]"
    by simp
  have a: "l_attributes fish ''ScientificName'' \<noteq> None"
    by (simp add: fish_def)
  have v: "loc_id_to_class ?c (l_id fish) = Some ''Fish''"
    by (simp add: fish_def)
  from C10_standalone_has_class [OF c l a, of exact_mul "''dive_1.mov''" 100 50] c l a v
  show ?thesis by (intro exI [of _ ?c]) simp
qed

section \<open>Resolved paths\<close>

text \<open>
  Where the paths of the notebook lead: an image path into \<^verbatim>\<open>./Data/JPEGImages\<close>,
  an annotation path to a file directly in \<^verbatim>\<open>./Data/Annotations\<close>, named by the
  base name of the image.
\<close>

lemma split_slash_not_Nil: "split_slash s \<noteq> []"
  by (induction s) (auto split: list.splits)

lemma split_slash_append_slash:
  "split_slash (a @ CHR ''/'' # s) = split_slash a @ split_slash s"
proof (induction a)
  case Nil
  then show ?case by simp
next
  case (Cons c a)
  then show ?case
    using split_slash_not_Nil [of a] by (cases "split_slash a") auto
qed

lemma split_slash_no_slash: "CHR ''/'' \<notin> set s \<Longrightarrow> split_slash s = [s]"
  by (induction s) auto

lemma resolve_image:
  "resolve (IMAGE_DIR @ s) =
     [''Data'', ''JPEGImages''] @ filter (\<lambda>x. x \<noteq> [] \<and> x \<noteq> ''.'') (split_slash s)"
proof -
  have "split_slash (''./Data/JPEGImages'' @ CHR ''/'' # s) =
          split_slash ''./Data/JPEGImages'' @ split_slash s"
    by (rule split_slash_append_slash)
  then show ?thesis
    by (simp add: resolve_def IMAGE_DIR_def ROOT_def)
qed

lemma resolve_label:
  "resolve (LABEL_DIR @ s) =
     [''Data'', ''Annotations''] @ filter (\<lambda>x. x \<noteq> [] \<and> x \<noteq> ''.'') (split_slash s)"
proof -
  have "split_slash (''./Data/Annotations'' @ CHR ''/'' # s) =
          split_slash ''./Data/Annotations'' @ split_slash s"
    by (rule split_slash_append_slash)
  then show ?thesis
    by (simp add: resolve_def LABEL_DIR_def ROOT_def)
qed

lemma basename_no_slashes: "CHR ''/'' \<notin> set (basename p)"
  unfolding basename_def by (auto dest: set_takeWhileD)

lemma str_int_no_underscore: "CHR ''_'' \<notin> set (str_int i)"
proof
  assume "CHR ''_'' \<in> set (str_int i)"
  with set_str_int [of i] have "CHR ''_'' \<in> set ''-0123456789''" by blast
  then show False by simp
qed

lemma resolve_xml_path:
  "resolve (xml_path (frame_path media_name frame)) =
     [''Data'', ''Annotations'',
      basename (split_dot_0 media_name) @ ''_'' @ str_int frame @ ''.xml'']"
proof -
  let ?t = "basename (split_dot_0 media_name) @ ''_'' @ str_int frame @ ''.xml''"
  have "CHR ''/'' \<notin> set ?t"
    using basename_no_slashes [of "split_dot_0 media_name"] str_int_no_slash [of frame] by simp
  then have "split_slash ?t = [?t]" by (rule split_slash_no_slash)
  moreover have "?t \<noteq> []" "?t \<noteq> ''.''" by (simp_all add: append_eq_Cons_conv)
  ultimately show ?thesis
    by (simp only: xml_path_frame_path resolve_label) simp
qed

lemma last_underscore:
  assumes "a @ CHR ''_'' # s = b @ CHR ''_'' # t"
    and "CHR ''_'' \<notin> set s" and "CHR ''_'' \<notin> set t"
  shows "a = b \<and> s = t"
proof -
  from assms(1) obtain us where
    "(a = b @ us \<and> us @ CHR ''_'' # s = CHR ''_'' # t) \<or> (a @ us = b \<and> CHR ''_'' # s = us @ CHR ''_'' # t)"
    by (auto simp: append_eq_append_conv2)
  then show ?thesis
  proof
    assume h: "a = b @ us \<and> us @ CHR ''_'' # s = CHR ''_'' # t"
    show ?thesis
    proof (cases us)
      case Nil
      with h show ?thesis by simp
    next
      case (Cons u us')
      with h have "t = us' @ CHR ''_'' # s" by simp
      with assms(3) show ?thesis by simp
    qed
  next
    assume h: "a @ us = b \<and> CHR ''_'' # s = us @ CHR ''_'' # t"
    show ?thesis
    proof (cases us)
      case Nil
      with h show ?thesis by simp
    next
      case (Cons u us')
      with h have "s = us' @ CHR ''_'' # t" by simp
      with assms(2) show ?thesis by simp
    qed
  qed
qed

lemma resolve_xml_path_eq:
  "resolve (xml_path (frame_path n f)) = resolve (xml_path (frame_path n' g)) \<longleftrightarrow>
     basename (split_dot_0 n) = basename (split_dot_0 n') \<and> f = g"
proof
  assume "resolve (xml_path (frame_path n f)) = resolve (xml_path (frame_path n' g))"
  then have "basename (split_dot_0 n) @ CHR ''_'' # str_int f =
             basename (split_dot_0 n') @ CHR ''_'' # str_int g"
    by (simp add: resolve_xml_path)
  from last_underscore [OF this str_int_no_underscore str_int_no_underscore]
  show "basename (split_dot_0 n) = basename (split_dot_0 n') \<and> f = g"
    by (simp add: str_int_inj)
next
  assume "basename (split_dot_0 n) = basename (split_dot_0 n') \<and> f = g"
  then show "resolve (xml_path (frame_path n f)) = resolve (xml_path (frame_path n' g))"
    by (simp add: resolve_xml_path)
qed

lemma annotation_xml_path:
  "prefix [''Data'', ''Annotations''] (resolve (xml_path (frame_path n f)))"
  by (simp add: resolve_xml_path)

lemma image_not_annotation:
  "\<not> prefix [''Data'', ''Annotations''] (resolve (IMAGE_DIR @ s))"
  by (simp add: resolve_image)

section \<open>Downloads\<close>

text \<open>
  What \<^verbatim>\<open>download_image\<close> and the worker pool change: never a directory, never the
  console, and no file other than the image of the frame.
\<close>

lemma download_image_dirs [simp]:
  "dirs (snd (download_image frame media_name media_dir api media_id download w)) = dirs w"
  by (simp add: download_image_def Let_def split: option.splits)

lemma download_image_console [simp]:
  "console (snd (download_image frame media_name media_dir api media_id download w)) = console w"
  by (simp add: download_image_def Let_def split: option.splits)

lemma download_image_False:
  "download_image frame media_name media_dir api media_id False w =
     (Inr (media_dir @ split_dot_0 media_name @ ''_'' @ str_int frame @ ''.jpg''), w)"
  by (simp add: download_image_def Let_def)

lemma download_image_other:
  "q \<noteq> resolve (media_dir @ split_dot_0 media_name @ ''_'' @ str_int frame @ ''.jpg'') \<Longrightarrow>
   files (snd (download_image frame media_name media_dir api media_id download w)) q = files w q"
  by (simp add: download_image_def Let_def split: option.splits)



lemma download_frames_Cons:
  "download_frames (f # frames) media_name api media_id download w =
     (fst (download_image f media_name IMAGE_DIR api media_id download w) #
        fst (download_frames frames media_name api media_id download
               (snd (download_image f media_name IMAGE_DIR api media_id download w))),
      snd (download_frames frames media_name api media_id download
             (snd (download_image f media_name IMAGE_DIR api media_id download w))))"
  by (simp add: split_beta)

lemma download_frames_dirs [simp]:
  "dirs (snd (download_frames frames media_name api media_id download w)) = dirs w"
  by (induction frames arbitrary: w) (simp_all add: download_frames_Cons del: download_frames.simps(2))

lemma download_frames_console [simp]:
  "console (snd (download_frames frames media_name api media_id download w)) = console w"
  by (induction frames arbitrary: w) (simp_all add: download_frames_Cons del: download_frames.simps(2))

lemma download_frames_False:
  "download_frames frames media_name api media_id False w =
     (map (\<lambda>f. Inr (frame_path media_name f)) frames, w)"
  by (induction frames arbitrary: w)
     (simp_all add: download_frames_Cons download_image_False frame_path_def
        del: download_frames.simps(2))

lemma results_Inr: "results (map (\<lambda>x. Inr (g x)) xs) = Inr (map g xs)"
  by (induction xs) simp_all

lemma results_all:
  "results futures = Inr xs \<Longrightarrow> r \<in> set futures \<Longrightarrow> \<exists>x. r = Inr x"
proof (induction futures arbitrary: xs)
  case Nil
  then show ?case by simp
next
  case (Cons a futures)
  then show ?case
    by (cases a; cases "results futures") auto
qed

lemma download_frames_annotation:
  "prefix [''Data'', ''Annotations''] q \<Longrightarrow>
   files (snd (download_frames frames media_name api media_id download w)) q = files w q"
proof (induction frames arbitrary: w)
  case Nil
  then show ?case by simp
next
  case (Cons f frames)
  from Cons.prems image_not_annotation
  have "q \<noteq> resolve (IMAGE_DIR @ split_dot_0 media_name @ ''_'' @ str_int f @ ''.jpg'')"
    by auto
  then have "files (snd (download_image f media_name IMAGE_DIR api media_id download w)) q = files w q"
    by (rule download_image_other)
  with Cons.IH [OF Cons.prems] show ?case
    by (simp add: download_frames_Cons del: download_frames.simps(2))
qed





text \<open>What \<^verbatim>\<open>writer.save\<close> changes.\<close>

lemma save_unchanged [simp]:
  "dirs (snd (save path wr w)) = dirs w"
  "fetched (snd (save path wr w)) = fetched w"
  "console (snd (save path wr w)) = console w"
  by (simp_all add: save_def Let_def split: option.splits)

lemma save_other:
  "q \<noteq> resolve path \<Longrightarrow> files (snd (save path wr w)) q = files w q"
  by (simp add: save_def Let_def split: option.splits)

lemma save_written:
  "fst (save path wr w) = Inr u \<Longrightarrow> files (snd (save path wr w)) (resolve path) = Some (Xml wr)"
  by (simp add: save_def Let_def split: option.splits if_splits)

lemma save_in_directory:
  "is_dir w (butlast (resolve path)) \<Longrightarrow>
   fst (save path wr w) = (if is_dir w (resolve path) then Inl IsADirectoryError else Inr ())"
  by (simp add: save_def Let_def parent_error_def)


section \<open>The emission loop\<close>

lemma wr_objects_add_objects:
  "add_objects locs wr =
     wr\<lparr>wr_objects := wr_objects wr @
        map (\<lambda>loc. \<lparr>obj_name = ld_class_category loc, obj_xmin = xmin (ld_bbox loc),
                    obj_ymin = ymin (ld_bbox loc), obj_xmax = xmax (ld_bbox loc),
                    obj_ymax = ymax (ld_bbox loc)\<rparr>) locs\<rparr>"
  by (induction locs arbitrary: wr) (simp_all add: addObject_def Let_def)

lemma group_by_frame_apply:
  "group_by_frame locs d f =
     (if filter (\<lambda>e. ld_frame e = f) locs = [] then d f
      else Some ((case d f of None \<Rightarrow> [] | Some es \<Rightarrow> es) @ filter (\<lambda>e. ld_frame e = f) locs))"
  by (induction locs arbitrary: d) (auto split: option.splits)

lemma group_by_frame_empty:
  "group_by_frame locs Map.empty f =
     (if filter (\<lambda>e. ld_frame e = f) locs = [] then None
      else Some (filter (\<lambda>e. ld_frame e = f) locs))"
  by (simp add: group_by_frame_apply)

lemma filter_reshape:
  "filter (\<lambda>e. ld_frame e = f) (map (reshape fmul n W H lk) ls) =
     map (reshape fmul n W H lk) (filter (\<lambda>l. l_frame l = f) ls)"
  by (induction ls) (simp_all add: reshape_def Let_def)




lemma emit_frames_step:
  assumes "\<exists>l\<in>set ls. l_frame l = f"
  shows "emit_frames (f # frames) (group_by_frame (map (reshape fmul n W H lk) ls) Map.empty) W H w =
     (case save (xml_path (frame_path n f))
             (add_objects (map (reshape fmul n W H lk) (filter (\<lambda>l. l_frame l = f) ls))
                (Writer (frame_path n f) W H)) w of
        (Inl e, w1) \<Rightarrow> (Inl e, w1)
      | (Inr u, w1) \<Rightarrow>
          emit_frames frames (group_by_frame (map (reshape fmul n W H lk) ls) Map.empty) W H w1)"
proof -
  from assms obtain l0 rest where fl: "filter (\<lambda>l. l_frame l = f) ls = l0 # rest"
    by (cases "filter (\<lambda>l. l_frame l = f) ls") (auto simp: filter_empty_conv)
  then have "l0 \<in> set (filter (\<lambda>l. l_frame l = f) ls)" by simp
  then have f0: "l_frame l0 = f" by simp
  have g: "group_by_frame (map (reshape fmul n W H lk) ls) Map.empty f =
      Some (reshape fmul n W H lk l0 # map (reshape fmul n W H lk) rest)"
    by (simp add: group_by_frame_empty filter_reshape fl)
  have p: "ld_path (reshape fmul n W H lk l0) = frame_path n f"
    by (simp add: reshape_def Let_def f0)
  show ?thesis
    by (simp add: g p fl Let_def)
qed

lemma emit_frames_unchanged:
  assumes "\<forall>f\<in>set frames. \<exists>l\<in>set ls. l_frame l = f"
  shows "dirs (snd (emit_frames frames (group_by_frame (map (reshape fmul n W H lk) ls) Map.empty) W H w)) = dirs w
     \<and> fetched (snd (emit_frames frames (group_by_frame (map (reshape fmul n W H lk) ls) Map.empty) W H w)) = fetched w
     \<and> console (snd (emit_frames frames (group_by_frame (map (reshape fmul n W H lk) ls) Map.empty) W H w)) = console w"
  using assms
proof (induction frames arbitrary: w)
  case Nil
  then show ?case by simp
next
  case (Cons f frames)
  let ?d = "add_objects (map (reshape fmul n W H lk) (filter (\<lambda>l. l_frame l = f) ls))
              (Writer (frame_path n f) W H)"
  let ?s = "save (xml_path (frame_path n f)) ?d w"
  from Cons.prems have f: "\<exists>l\<in>set ls. l_frame l = f"
    and r: "\<forall>f\<in>set frames. \<exists>l\<in>set ls. l_frame l = f" by simp_all
  show ?case
  proof (cases "fst ?s")
    case (Inl e)
    then show ?thesis
      by (simp add: emit_frames_step [OF f] split_beta del: emit_frames.simps(2))
  next
    case (Inr u)
    with Cons.IH [OF r, of "snd ?s"] show ?thesis
      by (simp add: emit_frames_step [OF f] split_beta del: emit_frames.simps(2))
  qed
qed

lemma emit_frames_other:
  assumes "\<forall>f\<in>set frames. \<exists>l\<in>set ls. l_frame l = f"
    and "q \<notin> (\<lambda>f. resolve (xml_path (frame_path n f))) ` set frames"
  shows "files (snd (emit_frames frames (group_by_frame (map (reshape fmul n W H lk) ls) Map.empty) W H w)) q
           = files w q"
  using assms
proof (induction frames arbitrary: w)
  case Nil
  then show ?case by simp
next
  case (Cons f frames)
  let ?d = "add_objects (map (reshape fmul n W H lk) (filter (\<lambda>l. l_frame l = f) ls))
              (Writer (frame_path n f) W H)"
  let ?s = "save (xml_path (frame_path n f)) ?d w"
  from Cons.prems have f: "\<exists>l\<in>set ls. l_frame l = f"
    and r: "\<forall>f\<in>set frames. \<exists>l\<in>set ls. l_frame l = f"
    and q: "q \<noteq> resolve (xml_path (frame_path n f))"
    and q': "q \<notin> (\<lambda>f. resolve (xml_path (frame_path n f))) ` set frames" by auto
  from q have s: "files (snd ?s) q = files w q" by (rule save_other)
  show ?case
  proof (cases "fst ?s")
    case (Inl e)
    with s show ?thesis
      by (simp add: emit_frames_step [OF f] split_beta del: emit_frames.simps(2))
  next
    case (Inr u)
    with Cons.IH [OF r q', of "snd ?s"] s show ?thesis
      by (simp add: emit_frames_step [OF f] split_beta del: emit_frames.simps(2))
  qed
qed

lemma emit_frames_written:
  assumes "\<forall>f\<in>set frames. \<exists>l\<in>set ls. l_frame l = f"
    and "fst (emit_frames frames (group_by_frame (map (reshape fmul n W H lk) ls) Map.empty) W H w) = Inr u"
    and "f \<in> set frames"
  shows "files (snd (emit_frames frames (group_by_frame (map (reshape fmul n W H lk) ls) Map.empty) W H w))
           (resolve (xml_path (frame_path n f))) =
         Some (Xml (add_objects (map (reshape fmul n W H lk) (filter (\<lambda>l. l_frame l = f) ls))
                      (Writer (frame_path n f) W H)))"
  using assms
proof (induction frames arbitrary: w)
  case Nil
  then show ?case by simp
next
  case (Cons g frames)
  let ?G = "group_by_frame (map (reshape fmul n W H lk) ls) Map.empty"
  let ?d = "\<lambda>f. add_objects (map (reshape fmul n W H lk) (filter (\<lambda>l. l_frame l = f) ls))
              (Writer (frame_path n f) W H)"
  let ?s = "save (xml_path (frame_path n g)) (?d g) w"
  from Cons.prems have g: "\<exists>l\<in>set ls. l_frame l = g"
    and r: "\<forall>f\<in>set frames. \<exists>l\<in>set ls. l_frame l = f" by simp_all
  from Cons.prems(2) obtain v where v: "fst ?s = Inr v"
    by (cases "fst ?s") (auto simp: emit_frames_step [OF g] split_beta simp del: emit_frames.simps(2))
  have e: "emit_frames (g # frames) ?G W H w = emit_frames frames ?G W H (snd ?s)"
    using v by (simp add: emit_frames_step [OF g] split_beta del: emit_frames.simps(2))
  from Cons.prems(2) have u: "fst (emit_frames frames ?G W H (snd ?s)) = Inr u"
    by (simp only: e)
  show ?case
  proof (cases "f \<in> set frames")
    case True
    from Cons.IH [OF r u True] show ?thesis by (simp only: e)
  next
    case False
    with Cons.prems(3) have fg: "f = g" by simp
    from False have "resolve (xml_path (frame_path n f))
        \<notin> (\<lambda>f. resolve (xml_path (frame_path n f))) ` set frames"
      by (auto simp: resolve_xml_path_eq)
    from emit_frames_other [OF r this, of fmul W H lk "snd ?s"] save_written [OF v]
    show ?thesis by (simp only: e fg)
  qed
qed


section \<open>One entry of cell 23\<close>

lemma download_frames_outside:
  "\<not> prefix [''Data'', ''JPEGImages''] q \<Longrightarrow>
   files (snd (download_frames frames media_name api media_id download w)) q = files w q"
proof (induction frames arbitrary: w)
  case Nil
  then show ?case by simp
next
  case (Cons f frames)
  from Cons.prems
  have "q \<noteq> resolve (IMAGE_DIR @ split_dot_0 media_name @ ''_'' @ str_int f @ ''.jpg'')"
    by (auto simp: resolve_image)
  then have "files (snd (download_image f media_name IMAGE_DIR api media_id download w)) q = files w q"
    by (rule download_image_other)
  with Cons.IH [OF Cons.prems] show ?case
    by (simp add: download_frames_Cons del: download_frames.simps(2))
qed


lemma files_print [simp]: "files (print line w) = files w"
  by (simp add: print_def)

lemma dirs_print [simp]: "dirs (print line w) = dirs w"
  by (simp add: print_def)

lemma fetched_print [simp]: "fetched (print line w) = fetched w"
  by (simp add: print_def)

lemma frames_have_localizations:
  "\<forall>f\<in>set (remdups (map l_frame ls)). \<exists>l\<in>set ls. l_frame l = f"
  by auto

lemma process_media_unfold:
  "process_media fmul DOWNLOAD api media w =
     (case results (fst (download_frames (remdups (map l_frame (e_localizations media)))
                           (e_name media) api (e_id media) DOWNLOAD
                           (print (''Downloading frames and annotations for:  '' @ e_name media) w))) of
        Inl e \<Rightarrow>
          (Inl e, snd (download_frames (remdups (map l_frame (e_localizations media)))
                         (e_name media) api (e_id media) DOWNLOAD
                         (print (''Downloading frames and annotations for:  '' @ e_name media) w)))
      | Inr img_paths \<Rightarrow>
          emit_frames (remdups (map l_frame (e_localizations media)))
            (group_by_frame
               (map (reshape fmul (e_name media) (e_width media) (e_height media)
                       (e_loc_id_to_class media)) (e_localizations media)) Map.empty)
            (e_width media) (e_height media)
            (snd (download_frames (remdups (map l_frame (e_localizations media)))
                    (e_name media) api (e_id media) DOWNLOAD
                    (print (''Downloading frames and annotations for:  '' @ e_name media) w))))"
  by (simp only: process_media_def Let_def split_beta)

lemma process_media_dirs [simp]:
  "dirs (snd (process_media fmul DOWNLOAD api media w)) = dirs w"
  using emit_frames_unchanged [OF frames_have_localizations]
  by (simp add: process_media_unfold split: sum.splits)


lemma process_media_written:
  assumes "fst (process_media fmul DOWNLOAD api media w) = Inr u"
    and "l \<in> set (e_localizations media)"
  shows "files (snd (process_media fmul DOWNLOAD api media w))
           (resolve (xml_path (frame_path (e_name media) (l_frame l)))) =
         Some (Xml (add_objects
                     (map (reshape fmul (e_name media) (e_width media) (e_height media)
                             (e_loc_id_to_class media))
                        (filter (\<lambda>k. l_frame k = l_frame l) (e_localizations media)))
                     (Writer (frame_path (e_name media) (l_frame l)) (e_width media)
                        (e_height media))))"
proof -
  let ?frames = "remdups (map l_frame (e_localizations media))"
  let ?D = "download_frames ?frames (e_name media) api (e_id media) DOWNLOAD
              (print (''Downloading frames and annotations for:  '' @ e_name media) w)"
  let ?G = "group_by_frame
               (map (reshape fmul (e_name media) (e_width media) (e_height media)
                       (e_loc_id_to_class media)) (e_localizations media)) Map.empty"
  from assms(1) obtain ps where ps: "results (fst ?D) = Inr ps"
    by (cases "results (fst ?D)") (auto simp: process_media_unfold)
  then have e: "process_media fmul DOWNLOAD api media w =
      emit_frames ?frames ?G (e_width media) (e_height media) (snd ?D)"
    by (simp add: process_media_unfold)
  from assms(1) have u: "fst (emit_frames ?frames ?G (e_width media) (e_height media) (snd ?D)) = Inr u"
    by (simp only: e)
  from assms(2) have m: "l_frame l \<in> set ?frames" by simp
  from emit_frames_written [OF frames_have_localizations u m] show ?thesis
    by (simp only: e)
qed


lemma process_media_False:
  "fetched (snd (process_media fmul False api media w)) = fetched w
   \<and> (\<forall>q. \<not> prefix [''Data'', ''Annotations''] q \<longrightarrow>
         files (snd (process_media fmul False api media w)) q = files w q)"
proof -
  let ?frames = "remdups (map l_frame (e_localizations media))"
  have "files (snd (emit_frames ?frames
            (group_by_frame
               (map (reshape fmul (e_name media) (e_width media) (e_height media)
                       (e_loc_id_to_class media)) (e_localizations media)) Map.empty)
            (e_width media) (e_height media) v)) q = files v q"
    if "\<not> prefix [''Data'', ''Annotations''] q" for q v
  proof -
    from that annotation_xml_path
    have "q \<notin> (\<lambda>f. resolve (xml_path (frame_path (e_name media) f))) ` set ?frames"
      by auto
    with frames_have_localizations show ?thesis by (rule emit_frames_other)
  qed
  with emit_frames_unchanged [OF frames_have_localizations] show ?thesis
    by (simp add: process_media_unfold download_frames_False results_Inr)
qed


text \<open>
  The two values of the flag, on machines with the same directories and the same files
  outside the image directory.
\<close>

lemma save_flag:
  assumes "dirs w = dirs v"
    and "\<forall>q. \<not> prefix [''Data'', ''JPEGImages''] q \<longrightarrow> files w q = files v q"
  shows "fst (save (xml_path (frame_path n f)) wr w) = fst (save (xml_path (frame_path n f)) wr v)
     \<and> dirs (snd (save (xml_path (frame_path n f)) wr w)) = dirs (snd (save (xml_path (frame_path n f)) wr v))
     \<and> (\<forall>q. \<not> prefix [''Data'', ''JPEGImages''] q \<longrightarrow>
           files (snd (save (xml_path (frame_path n f)) wr w)) q =
           files (snd (save (xml_path (frame_path n f)) wr v)) q)"
proof -
  have "files w r = files v r" if "r \<in> set (prefixes [''Data'', ''Annotations''])" for r
    using that assms(2) by auto
  then have "list_ex (\<lambda>r. files w r \<noteq> None) (prefixes [''Data'', ''Annotations'']) =
             list_ex (\<lambda>r. files v r \<noteq> None) (prefixes [''Data'', ''Annotations''])"
    by (simp add: list_ex_iff)
  with assms show ?thesis
    by (simp add: save_def Let_def parent_error_def is_dir_def resolve_xml_path split: option.splits)
qed

lemma emit_frames_flag:
  assumes "\<forall>f\<in>set frames. \<exists>l\<in>set ls. l_frame l = f"
    and "dirs w = dirs v"
    and "\<forall>q. \<not> prefix [''Data'', ''JPEGImages''] q \<longrightarrow> files w q = files v q"
  shows "fst (emit_frames frames (group_by_frame (map (reshape fmul n W H lk) ls) Map.empty) W H w) =
         fst (emit_frames frames (group_by_frame (map (reshape fmul n W H lk) ls) Map.empty) W H v)
     \<and> (\<forall>q. \<not> prefix [''Data'', ''JPEGImages''] q \<longrightarrow>
          files (snd (emit_frames frames (group_by_frame (map (reshape fmul n W H lk) ls) Map.empty) W H w)) q =
          files (snd (emit_frames frames (group_by_frame (map (reshape fmul n W H lk) ls) Map.empty) W H v)) q)"
  using assms
proof (induction frames arbitrary: w v)
  case Nil
  then show ?case by simp
next
  case (Cons f frames)
  let ?d = "add_objects (map (reshape fmul n W H lk) (filter (\<lambda>l. l_frame l = f) ls))
              (Writer (frame_path n f) W H)"
  let ?s = "save (xml_path (frame_path n f)) ?d w"
  let ?t = "save (xml_path (frame_path n f)) ?d v"
  from Cons.prems have f: "\<exists>l\<in>set ls. l_frame l = f"
    and r: "\<forall>f\<in>set frames. \<exists>l\<in>set ls. l_frame l = f" by simp_all
  from save_flag [OF Cons.prems(2,3), of n f ?d]
  have st: "fst ?s = fst ?t" "dirs (snd ?s) = dirs (snd ?t)"
    "\<forall>q. \<not> prefix [''Data'', ''JPEGImages''] q \<longrightarrow> files (snd ?s) q = files (snd ?t) q"
    by simp_all
  show ?case
  proof (cases "fst ?s")
    case (Inl e)
    with st(1) have "fst ?t = Inl e" by simp
    with Inl st(3) show ?thesis
      by (simp add: emit_frames_step [OF f] split_beta del: emit_frames.simps(2))
  next
    case (Inr u)
    with st(1) have "fst ?t = Inr u" by simp
    with Inr Cons.IH [OF r st(2,3)] show ?thesis
      by (simp add: emit_frames_step [OF f] split_beta del: emit_frames.simps(2))
  qed
qed

lemma process_media_flag:
  assumes "dirs w = dirs v"
    and "\<forall>q. \<not> prefix [''Data'', ''JPEGImages''] q \<longrightarrow> files w q = files v q"
    and "fst (process_media fmul True api media w) = Inr u"
  shows "fst (process_media fmul False api media v) = Inr u
     \<and> (\<forall>q. \<not> prefix [''Data'', ''JPEGImages''] q \<longrightarrow>
          files (snd (process_media fmul True api media w)) q =
          files (snd (process_media fmul False api media v)) q)"
proof -
  let ?line = "''Downloading frames and annotations for:  '' @ e_name media"
  let ?frames = "remdups (map l_frame (e_localizations media))"
  let ?D = "download_frames ?frames (e_name media) api (e_id media) True (print ?line w)"
  let ?G = "group_by_frame
               (map (reshape fmul (e_name media) (e_width media) (e_height media)
                       (e_loc_id_to_class media)) (e_localizations media)) Map.empty"
  from assms(3) obtain ps where ps: "results (fst ?D) = Inr ps"
    by (cases "results (fst ?D)") (auto simp: process_media_unfold)
  then have t: "process_media fmul True api media w =
      emit_frames ?frames ?G (e_width media) (e_height media) (snd ?D)"
    by (simp add: process_media_unfold)
  have f: "process_media fmul False api media v =
      emit_frames ?frames ?G (e_width media) (e_height media) (print ?line v)"
    by (simp add: process_media_unfold download_frames_False results_Inr)
  have d: "dirs (snd ?D) = dirs (print ?line v)"
    using assms(1) by simp
  have o: "\<forall>q. \<not> prefix [''Data'', ''JPEGImages''] q \<longrightarrow> files (snd ?D) q = files (print ?line v) q"
    using assms(2) by (simp add: download_frames_outside)
  from emit_frames_flag [OF frames_have_localizations d o] assms(3) show ?thesis
    by (simp only: t f) simp
qed

section \<open>All entries of cell 23\<close>


lemma cell23_Cons:
  "cell23 fmul DOWNLOAD api (m # es) w =
     (case fst (process_media fmul DOWNLOAD api m w) of
        Inl e \<Rightarrow> (Inl e, snd (process_media fmul DOWNLOAD api m w))
      | Inr u \<Rightarrow> cell23 fmul DOWNLOAD api es (snd (process_media fmul DOWNLOAD api m w)))"
  by (simp add: split_beta split: sum.splits)

lemma cell23_dirs [simp]: "dirs (snd (cell23 fmul DOWNLOAD api es w)) = dirs w"
  by (induction es arbitrary: w) (simp_all add: cell23_Cons split: sum.splits del: cell23.simps(2))



lemma cell23_False:
  "fetched (snd (cell23 fmul False api es w)) = fetched w
   \<and> (\<forall>q. \<not> prefix [''Data'', ''Annotations''] q \<longrightarrow>
         files (snd (cell23 fmul False api es w)) q = files w q)"
proof (induction es arbitrary: w)
  case Nil
  then show ?case by simp
next
  case (Cons m es)
  from process_media_False [of fmul api m w]
    Cons.IH [of "snd (process_media fmul False api m w)"]
  show ?case
    by (simp add: cell23_Cons split: sum.splits del: cell23.simps(2))
qed


lemma cell23_flag:
  assumes "dirs w = dirs v"
    and "\<forall>q. \<not> prefix [''Data'', ''JPEGImages''] q \<longrightarrow> files w q = files v q"
    and "fst (cell23 fmul True api es w) = Inr u"
  shows "fst (cell23 fmul False api es v) = Inr u
     \<and> (\<forall>q. \<not> prefix [''Data'', ''JPEGImages''] q \<longrightarrow>
          files (snd (cell23 fmul True api es w)) q = files (snd (cell23 fmul False api es v)) q)"
  using assms
proof (induction es arbitrary: w v)
  case Nil
  then show ?case by simp
next
  case (Cons m es)
  let ?p = "process_media fmul True api m w"
  let ?q = "process_media fmul False api m v"
  from Cons.prems(3) obtain x where x: "fst ?p = Inr x"
    by (cases "fst ?p") (auto simp: cell23_Cons simp del: cell23.simps(2))
  with Cons.prems(3) have r: "fst (cell23 fmul True api es (snd ?p)) = Inr u"
    by (simp add: cell23_Cons del: cell23.simps(2))
  from process_media_flag [OF Cons.prems(1,2) x]
  have f: "fst ?q = Inr x"
    "\<forall>q. \<not> prefix [''Data'', ''JPEGImages''] q \<longrightarrow> files (snd ?p) q = files (snd ?q) q"
    by simp_all
  have d: "dirs (snd ?p) = dirs (snd ?q)" using Cons.prems(1) by simp
  from Cons.IH [OF d f(2) r] x f(1) show ?case
    by (simp add: cell23_Cons del: cell23.simps(2))
qed


text \<open>Cells 7, 15 and 18 write no file and fetch no frame.\<close>

lemma makedirs_store [simp]:
  "files (snd (makedirs name w)) = files w"
  "fetched (snd (makedirs name w)) = fetched w"
  "console (snd (makedirs name w)) = console w"
  by (simp_all add: makedirs_def Let_def)

lemma cell7_store [simp]:
  "files (snd (cell7 w)) = files w"
  "fetched (snd (cell7 w)) = fetched w"
  "console (snd (cell7 w)) = console w"
  by (simp_all add: cell7_def split_beta split: sum.splits)

lemma cell15_store [simp]:
  "files (cell15 MEDIA_LIST names w) = files w"
  "dirs (cell15 MEDIA_LIST names w) = dirs w"
  "fetched (cell15 MEDIA_LIST names w) = fetched w"
  by (induction MEDIA_LIST arbitrary: w) simp_all




lemma cell18_store:
  "files (snd (cell18 api MEDIA_LIST medias mwl labels w)) = files w
   \<and> dirs (snd (cell18 api MEDIA_LIST medias mwl labels w)) = dirs w
   \<and> fetched (snd (cell18 api MEDIA_LIST medias mwl labels w)) = fetched w
   \<and> set (console w) \<subseteq> set (console (snd (cell18 api MEDIA_LIST medias mwl labels w)))"
proof (induction medias arbitrary: mwl labels w)
  case Nil
  then show ?case by simp
next
  case (Cons m medias)
  let ?w1 = "print (''Collecting metadata for:  '' @ m_name m) w"
  have c: "set (console w) \<subseteq> set (console ?w1)" by (auto simp: print_def)
  show ?case
  proof (cases "m_name m \<in> set MEDIA_LIST")
    case False
    with Cons.IH [of mwl labels w] show ?thesis by simp
  next
    case True
    show ?thesis
    proof (cases "get_localization_list api (m_id m)")
      case None
      with True c show ?thesis by (simp add: Let_def)
    next
      case ls: (Some localizations)
      show ?thesis
      proof (cases "get_state_list api (m_id m)")
        case None
        with True ls c show ?thesis by (simp add: Let_def)
      next
        case ts: (Some tracks)
        show ?thesis
        proof (cases "collect_media tracks localizations labels")
          case (Inl e)
          with True ls ts c show ?thesis by (simp add: Let_def)
        next
          case (Inr cl)
          let ?e = "\<lparr>e_name = replace_str '':'' ''_'' (m_name m), e_id = m_id m,
                     e_width = m_width m, e_height = m_height m,
                     e_localizations = media_localizations cl,
                     e_loc_id_to_class = loc_id_to_class cl\<rparr>"
          from Cons.IH [of "mwl @ [?e]" "class_labels cl" ?w1] c True ls ts Inr
          show ?thesis by (auto simp: Let_def)
        qed
      qed
    qed
  qed
qed


section \<open>Evaluation on the example data\<close>

lemma str3: "str_int 3 = ''3''"
  by (simp add: str_int_def str_nat.simps digit_char_def)

lemma cell7_fresh: "cell7 fresh = (Inr (), prepared)"
  by (auto simp: cell7_def makedirs_def fresh_def prepared_def resolve_def ROOT_def IMAGE_DIR_def
      LABEL_DIR_def Let_def)

lemmas eval_defs =
  process_media_def download_image_def Let_def path_exists_def is_dir_def parent_error_def
  save_def reshape_def resolve_image resolve_xml_path split_dot_0_def basename_def str3
  exact_mul_def py_int_def Writer_def addObject_def print_def frame_path_def [symmetric]


section \<open>Runs that return\<close>

lemma emit_frames_returns:
  assumes "\<forall>f\<in>set frames. \<exists>l\<in>set ls. l_frame l = f"
    and "is_dir w [''Data'', ''Annotations'']"
    and "\<forall>f\<in>set frames. \<not> is_dir w (resolve (xml_path (frame_path n f)))"
  shows "fst (emit_frames frames (group_by_frame (map (reshape fmul n W H lk) ls) Map.empty) W H w)
           = Inr ()"
  using assms
proof (induction frames arbitrary: w)
  case Nil
  then show ?case by simp
next
  case (Cons f frames)
  let ?d = "add_objects (map (reshape fmul n W H lk) (filter (\<lambda>l. l_frame l = f) ls))
              (Writer (frame_path n f) W H)"
  let ?s = "save (xml_path (frame_path n f)) ?d w"
  from Cons.prems have f: "\<exists>l\<in>set ls. l_frame l = f"
    and r: "\<forall>f\<in>set frames. \<exists>l\<in>set ls. l_frame l = f" by simp_all
  from Cons.prems(2) have "is_dir w (butlast (resolve (xml_path (frame_path n f))))"
    by (simp add: resolve_xml_path)
  from save_in_directory [OF this, of ?d] Cons.prems(3) have s: "fst ?s = Inr ()" by simp
  have d: "is_dir (snd ?s) q = is_dir w q" for q by (simp add: is_dir_def)
  from Cons.prems have "is_dir (snd ?s) [''Data'', ''Annotations'']"
    "\<forall>f\<in>set frames. \<not> is_dir (snd ?s) (resolve (xml_path (frame_path n f)))"
    by (simp_all add: d)
  from Cons.IH [OF r this] s show ?case
    by (simp add: emit_frames_step [OF f] split_beta del: emit_frames.simps(2))
qed

lemma process_media_False_returns:
  assumes "is_dir w [''Data'', ''Annotations'']"
    and "\<forall>l\<in>set (e_localizations media).
           \<not> is_dir w (resolve (xml_path (frame_path (e_name media) (l_frame l))))"
  shows "fst (process_media fmul False api media w) = Inr ()"
proof -
  let ?line = "''Downloading frames and annotations for:  '' @ e_name media"
  have d: "is_dir (print ?line w) q = is_dir w q" for q by (simp add: is_dir_def)
  from assms(1) have a: "is_dir (print ?line w) [''Data'', ''Annotations'']"
    by (simp only: d)
  have b: "\<forall>f\<in>set (remdups (map l_frame (e_localizations media))).
        \<not> is_dir (print ?line w) (resolve (xml_path (frame_path (e_name media) f)))"
  proof
    fix f assume "f \<in> set (remdups (map l_frame (e_localizations media)))"
    then obtain l where "l \<in> set (e_localizations media)" "l_frame l = f" by auto
    with assms(2) show "\<not> is_dir (print ?line w) (resolve (xml_path (frame_path (e_name media) f)))"
      by (auto simp only: d)
  qed
  from emit_frames_returns [OF frames_have_localizations a b] show ?thesis
    by (simp add: process_media_unfold download_frames_False results_Inr)
qed




lemma download_image_returns:
  assumes "download \<longrightarrow> get_frame api media_id f \<noteq> None
             \<and> is_dir w (butlast (resolve (frame_path media_name f)))"
  shows "\<exists>p. fst (download_image f media_name IMAGE_DIR api media_id download w) = Inr p"
proof (cases "\<not> path_exists w (frame_path media_name f) \<and> download")
  case False
  then show ?thesis by (auto simp: download_image_def Let_def frame_path_def)
next
  case True
  with assms obtain src where s: "get_frame api media_id f = Some src"
    and d: "is_dir w (butlast (resolve (frame_path media_name f)))" by auto
  from d have "parent_error (w\<lparr>fetched := fetched w @ [(media_id, f)]\<rparr>)
                 (resolve (frame_path media_name f)) = None"
    by (simp add: parent_error_def is_dir_def)
  with True s show ?thesis
    by (simp add: download_image_def Let_def frame_path_def)
qed

lemma download_frames_returns:
  assumes "download \<longrightarrow> (\<forall>f\<in>set frames. get_frame api media_id f \<noteq> None
             \<and> is_dir w (butlast (resolve (frame_path media_name f))))"
  shows "\<exists>ps. results (fst (download_frames frames media_name api media_id download w)) = Inr ps"
  using assms
proof (induction frames arbitrary: w)
  case Nil
  then show ?case by simp
next
  case (Cons g frames)
  let ?r = "download_image g media_name IMAGE_DIR api media_id download w"
  from Cons.prems have "download \<longrightarrow> get_frame api media_id g \<noteq> None
             \<and> is_dir w (butlast (resolve (frame_path media_name g)))" by simp
  then obtain p where p: "fst ?r = Inr p"
    using download_image_returns by blast
  have d: "is_dir (snd (download_image g media_name IMAGE_DIR api media_id dl w)) q = is_dir w q"
    for q dl by (simp add: is_dir_def)
  from Cons.prems have "download \<longrightarrow> (\<forall>f\<in>set frames. get_frame api media_id f \<noteq> None
             \<and> is_dir (snd ?r) (butlast (resolve (frame_path media_name f))))"
    by (simp add: d)
  from Cons.IH [OF this] obtain ps where
    "results (fst (download_frames frames media_name api media_id download (snd ?r))) = Inr ps"
    by blast
  with p show ?case
    by (simp add: download_frames_Cons del: download_frames.simps(2))
qed

lemma process_media_returns:
  assumes "is_dir w [''Data'', ''Annotations'']"
    and "\<forall>l\<in>set (e_localizations media).
           \<not> is_dir w (resolve (xml_path (frame_path (e_name media) (l_frame l))))"
    and "DOWNLOAD \<longrightarrow> (\<forall>l\<in>set (e_localizations media).
           get_frame api (e_id media) (l_frame l) \<noteq> None
           \<and> is_dir w (butlast (resolve (frame_path (e_name media) (l_frame l)))))"
  shows "fst (process_media fmul DOWNLOAD api media w) = Inr ()"
proof -
  let ?line = "''Downloading frames and annotations for:  '' @ e_name media"
  let ?frames = "remdups (map l_frame (e_localizations media))"
  let ?D = "download_frames ?frames (e_name media) api (e_id media) DOWNLOAD (print ?line w)"
  have d: "is_dir (print ?line w) q = is_dir w q" for q by (simp add: is_dir_def)
  have d': "is_dir (snd ?D) q = is_dir w q" for q by (simp add: is_dir_def)
  from assms(3) have "DOWNLOAD \<longrightarrow> (\<forall>f\<in>set ?frames. get_frame api (e_id media) f \<noteq> None
             \<and> is_dir (print ?line w) (butlast (resolve (frame_path (e_name media) f))))"
    by (auto simp only: d set_remdups set_map)
  from download_frames_returns [OF this] obtain ps where ps: "results (fst ?D) = Inr ps"
    by blast
  from assms(1) have a: "is_dir (snd ?D) [''Data'', ''Annotations'']"
    by (simp only: d')
  have b: "\<forall>f\<in>set ?frames. \<not> is_dir (snd ?D) (resolve (xml_path (frame_path (e_name media) f)))"
  proof
    fix f assume "f \<in> set ?frames"
    then obtain l where "l \<in> set (e_localizations media)" "l_frame l = f" by auto
    with assms(2) show "\<not> is_dir (snd ?D) (resolve (xml_path (frame_path (e_name media) f)))"
      by (auto simp only: d')
  qed
  from emit_frames_returns [OF frames_have_localizations a b] ps show ?thesis
    by (simp add: process_media_unfold)
qed

section \<open>The fallback label\<close>

text \<open>
  Claim C3. A localization of an entry whose identifier has no entry in the lookup gets
  the class label \<^verbatim>\<open>Unknown\<close> from the reshaper, and when cell 23 returns for the
  entry, the annotation file of the frame of the localization holds an object named
  \<^verbatim>\<open>Unknown\<close> with its box. Cell 23 does return for the entry when the annotation
  directory exists, no annotation path of the entry is a directory and, if the flag is
  true, the service answers for each frame and the directory of each image path exists.
\<close>

theorem C3_unknown_label:
  assumes "l \<in> set (e_localizations media)"
    and "e_loc_id_to_class media (l_id l) = None"
  shows "ld_class_category (reshape fmul (e_name media) (e_width media) (e_height media)
                             (e_loc_id_to_class media) l) = ''Unknown''
     \<and> (fst (process_media fmul DOWNLOAD api media w) = Inr () \<longrightarrow>
          (\<exists>wr. files (snd (process_media fmul DOWNLOAD api media w))
                   (resolve (xml_path (frame_path (e_name media) (l_frame l)))) = Some (Xml wr)
             \<and> (let loc = reshape fmul (e_name media) (e_width media) (e_height media)
                             (e_loc_id_to_class media) l
                in \<lparr>obj_name = ''Unknown'', obj_xmin = xmin (ld_bbox loc),
                    obj_ymin = ymin (ld_bbox loc), obj_xmax = xmax (ld_bbox loc),
                    obj_ymax = ymax (ld_bbox loc)\<rparr> \<in> set (wr_objects wr))))
     \<and> (is_dir w [''Data'', ''Annotations'']
          \<and> (\<forall>k\<in>set (e_localizations media).
                \<not> is_dir w (resolve (xml_path (frame_path (e_name media) (l_frame k)))))
          \<and> (DOWNLOAD \<longrightarrow> (\<forall>k\<in>set (e_localizations media).
                get_frame api (e_id media) (l_frame k) \<noteq> None
                \<and> is_dir w (butlast (resolve (frame_path (e_name media) (l_frame k)))))) \<longrightarrow>
          fst (process_media fmul DOWNLOAD api media w) = Inr ())"
proof -
  let ?R = "reshape fmul (e_name media) (e_width media) (e_height media) (e_loc_id_to_class media)"
  let ?ls = "filter (\<lambda>k. l_frame k = l_frame l) (e_localizations media)"
  let ?wr = "add_objects (map ?R ?ls)
               (Writer (frame_path (e_name media) (l_frame l)) (e_width media) (e_height media))"
  from assms(2) have u: "ld_class_category (?R l) = ''Unknown''"
    by (simp add: reshape_def Let_def)
  from assms(1) have "l \<in> set ?ls" by simp
  then have "?R l \<in> ?R ` set ?ls" by (rule imageI)
  then have "?R l \<in> set (map ?R ?ls)" by (simp only: set_map)
  then have o: "\<lparr>obj_name = ''Unknown'', obj_xmin = xmin (ld_bbox (?R l)),
              obj_ymin = ymin (ld_bbox (?R l)), obj_xmax = xmax (ld_bbox (?R l)),
              obj_ymax = ymax (ld_bbox (?R l))\<rparr> \<in> set (wr_objects ?wr)"
    unfolding wr_objects_add_objects using u by (auto simp: Writer_def image_iff)
  have f: "files (snd (process_media fmul DOWNLOAD api media w))
             (resolve (xml_path (frame_path (e_name media) (l_frame l)))) = Some (Xml ?wr)"
    if "fst (process_media fmul DOWNLOAD api media w) = Inr ()"
    using that assms(1) by (rule process_media_written)
  have r: "fst (process_media fmul DOWNLOAD api media w) = Inr ()"
    if "is_dir w [''Data'', ''Annotations'']"
      "\<forall>k\<in>set (e_localizations media).
          \<not> is_dir w (resolve (xml_path (frame_path (e_name media) (l_frame k))))"
      "DOWNLOAD \<longrightarrow> (\<forall>k\<in>set (e_localizations media).
                get_frame api (e_id media) (l_frame k) \<noteq> None
                \<and> is_dir w (butlast (resolve (frame_path (e_name media) (l_frame k)))))"
    using that by (rule process_media_returns)
  from u o f r show ?thesis unfolding Let_def by blast
qed

lemma resolve_dive: "resolve (xml_path (frame_path ''dive_1.mov'' 3)) = [''Data'', ''Annotations'', ''dive_1_3.xml'']"
  by (simp add: resolve_xml_path split_dot_0_def basename_def str3)

lemma resolve_dive_image:
  "resolve (frame_path ''dive_1.mov'' 3) = [''Data'', ''JPEGImages'', ''dive_1_3.jpg'']"
  by (simp add: frame_path_def resolve_image split_dot_0_def str3)

lemma prepared_is_dir:
  "is_dir prepared [''Data'', ''Annotations'']"
  "is_dir prepared [''Data'', ''JPEGImages'']"
  "\<not> is_dir prepared [''Data'', ''Annotations'', x]"
  by (simp_all add: is_dir_def prepared_def)

text \<open>
  The statement for \<open>fish\<close> in an entry with an empty lookup, with the flag true on the
  machine that cell 7 leaves: cell 23 returns for the entry, and the annotation file of
  frame 3 holds the object named \<^verbatim>\<open>Unknown\<close>.
\<close>

theorem C3_unknown_label_witness:
  "fish \<in> set (e_localizations no_lookup) \<and> e_loc_id_to_class no_lookup (l_id fish) = None
   \<and> fst (process_media exact_mul True project no_lookup prepared) = Inr ()
   \<and> (\<exists>wr. files (snd (process_media exact_mul True project no_lookup prepared))
              [''Data'', ''Annotations'', ''dive_1_3.xml''] = Some (Xml wr)
         \<and> \<lparr>obj_name = ''Unknown'', obj_xmin = 90, obj_ymin = 0, obj_xmax = 140, obj_ymax = 0\<rparr>
             \<in> set (wr_objects wr))"
proof -
  have h1: "fish \<in> set (e_localizations no_lookup)"
    and h2: "e_loc_id_to_class no_lookup (l_id fish) = None"
    by (simp_all add: no_lookup_def)
  have b: "ld_bbox (reshape exact_mul (e_name no_lookup) (e_width no_lookup) (e_height no_lookup)
                     (e_loc_id_to_class no_lookup) fish)
           = \<lparr>xmin = 90, ymin = 0, xmax = 140, ymax = 0\<rparr>"
    by (simp add: reshape_def Let_def no_lookup_def fish_def exact_mul_def py_int_def)
  have p: "resolve (xml_path (frame_path (e_name no_lookup) (l_frame k))) =
             [''Data'', ''Annotations'', ''dive_1_3.xml'']" if "k \<in> set (e_localizations no_lookup)" for k
    using that resolve_dive by (simp add: no_lookup_def fish_def)
  have q: "butlast (resolve (frame_path (e_name no_lookup) (l_frame k))) =
             [''Data'', ''JPEGImages'']" if "k \<in> set (e_localizations no_lookup)" for k
    using that resolve_dive_image by (simp add: no_lookup_def fish_def)
  have d: "\<forall>k\<in>set (e_localizations no_lookup).
      \<not> is_dir prepared (resolve (xml_path (frame_path (e_name no_lookup) (l_frame k))))"
    using p prepared_is_dir(3) by simp
  have g: "True \<longrightarrow> (\<forall>k\<in>set (e_localizations no_lookup).
      get_frame project (e_id no_lookup) (l_frame k) \<noteq> None
      \<and> is_dir prepared (butlast (resolve (frame_path (e_name no_lookup) (l_frame k)))))"
    using q prepared_is_dir(2) by (simp add: project_def)
  from C3_unknown_label [OF h1 h2, of exact_mul True project prepared] d g prepared_is_dir(1)
  have r: "fst (process_media exact_mul True project no_lookup prepared) = Inr ()"
    by blast
  from C3_unknown_label [OF h1 h2, of exact_mul True project prepared] r h1 h2
  show ?thesis unfolding p [OF h1] b Let_def by auto
qed

section \<open>One annotation file for each frame\<close>





section \<open>No deduplication\<close>




section \<open>File layout\<close>





section \<open>The frame downloader\<close>

lemma parent_error_fetched [simp]:
  "parent_error (w\<lparr>fetched := x\<rparr>) q = parent_error w q"
  by (simp add: parent_error_def is_dir_def)

text \<open>
  Claim C6 says that \<^verbatim>\<open>download_image\<close> returns the computed path in every case. It
  does not when the move fails. For the media name \<^verbatim>\<open>a/b.mov\<close> the destination is
  \<^verbatim>\<open>./Data/JPEGImages/a/b_3.jpg\<close>; on the machine that cell 7 leaves, the directory
  \<^verbatim>\<open>./Data/JPEGImages/a\<close> does not exist, the frame is fetched, and
  \<^verbatim>\<open>shutil.move\<close> raises: no path is returned and no image is stored.
\<close>

theorem C6_counterexample:
  "download_image 3 ''a/b.mov'' IMAGE_DIR nested_project 12 True prepared =
     (Inl FileNotFoundError, prepared\<lparr>fetched := [(12, 3)]\<rparr>)"
  by (simp add: download_image_def Let_def path_exists_def is_dir_def parent_error_def
      resolve_image split_dot_0_def str3 nested_project_def prepared_def)

text \<open>
  Claim C6, amended. When \<^verbatim>\<open>download_image\<close> returns, it returns the path built from
  the directory, the media name and the frame index. With the flag false, or with
  something at that path, it returns the path and changes nothing. With the flag true and
  nothing at the path it asks the service for the frame, once; it returns exactly when the
  service answers and the directory of the path exists; the image is then at the path,
  and a second call with the flag true returns the path and changes nothing, so that it
  fetches nothing.
\<close>

theorem C6_download_image:
  "(let dst = media_dir @ split_dot_0 media_name @ ''_'' @ str_int frame @ ''.jpg'';
        r = download_image frame media_name media_dir api media_id download w
    in (\<forall>p. fst r = Inr p \<longrightarrow> p = dst)
     \<and> (\<not> download \<or> path_exists w dst \<longrightarrow> r = (Inr dst, w))
     \<and> (download \<and> \<not> path_exists w dst \<longrightarrow>
          fetched (snd r) = fetched w @ [(media_id, frame)]
          \<and> (fst r = Inr dst \<longleftrightarrow>
               get_frame api media_id frame \<noteq> None \<and> parent_error w (resolve dst) = None)
          \<and> (fst r = Inr dst \<longrightarrow>
               (\<exists>src. get_frame api media_id frame = Some src
                  \<and> files (snd r) (resolve dst) = Some (Jpeg src))
               \<and> path_exists (snd r) dst
               \<and> download_image frame media_name media_dir api media_id True (snd r)
                   = (Inr dst, snd r))))"
proof -
  define dst where "dst = media_dir @ split_dot_0 media_name @ ''_'' @ str_int frame @ ''.jpg''"
  define r where "r = download_image frame media_name media_dir api media_id download w"
  have 1: "\<forall>p. fst r = Inr p \<longrightarrow> p = dst"
    unfolding r_def dst_def download_image_def Let_def
    by (simp split: option.splits)
  have 2: "\<not> download \<or> path_exists w dst \<longrightarrow> r = (Inr dst, w)"
    unfolding r_def dst_def download_image_def Let_def by simp
  have 3: "fetched (snd r) = fetched w @ [(media_id, frame)]
          \<and> (fst r = Inr dst \<longleftrightarrow>
               get_frame api media_id frame \<noteq> None \<and> parent_error w (resolve dst) = None)
          \<and> (fst r = Inr dst \<longrightarrow>
               (\<exists>src. get_frame api media_id frame = Some src
                  \<and> files (snd r) (resolve dst) = Some (Jpeg src))
               \<and> path_exists (snd r) dst
               \<and> download_image frame media_name media_dir api media_id True (snd r)
                   = (Inr dst, snd r))"
    if h: "download" "\<not> path_exists w dst"
  proof (cases "get_frame api media_id frame")
    case None
    with h show ?thesis
      unfolding r_def dst_def download_image_def Let_def by simp
  next
    case (Some src)
    show ?thesis
    proof (cases "parent_error w (resolve dst)")
      case (Some e)
      with \<open>get_frame api media_id frame = Some src\<close> h show ?thesis
        unfolding r_def dst_def download_image_def Let_def by simp
    next
      case None
      let ?w1 = "w\<lparr>fetched := fetched w @ [(media_id, frame)]\<rparr>"
      have r: "r = (Inr dst, ?w1\<lparr>files := (files ?w1)(resolve dst \<mapsto> Jpeg src)\<rparr>)"
        using None \<open>get_frame api media_id frame = Some src\<close> h
        unfolding r_def dst_def download_image_def Let_def by simp
      have p: "path_exists (snd r) dst"
        unfolding r by (simp add: path_exists_def)
      have "download_image frame media_name media_dir api media_id True (snd r) = (Inr dst, snd r)"
        using p unfolding dst_def download_image_def Let_def by simp
      with r p None \<open>get_frame api media_id frame = Some src\<close> show ?thesis by simp
    qed
  qed
  from 1 2 3 show ?thesis
    unfolding Let_def dst_def [symmetric] r_def [symmetric] by blast
qed

text \<open>
  The amended statement for frame 3 of \<^verbatim>\<open>dive_1.mov\<close>, with the flag true on the
  machine that cell 7 leaves.
\<close>

theorem C6_download_image_witness:
  "\<not> path_exists prepared ''./Data/JPEGImages/dive_1_3.jpg''
   \<and> get_frame project 11 3 = Some ''jpeg-bytes''
   \<and> parent_error prepared (resolve ''./Data/JPEGImages/dive_1_3.jpg'') = None
   \<and> fst (download_image 3 ''dive_1.mov'' ''./Data/JPEGImages/'' project 11 True prepared)
       = Inr ''./Data/JPEGImages/dive_1_3.jpg''
   \<and> fetched (snd (download_image 3 ''dive_1.mov'' ''./Data/JPEGImages/'' project 11 True prepared))
       = [(11, 3)]
   \<and> files (snd (download_image 3 ''dive_1.mov'' ''./Data/JPEGImages/'' project 11 True prepared))
        [''Data'', ''JPEGImages'', ''dive_1_3.jpg''] = Some (Jpeg ''jpeg-bytes'')
   \<and> download_image 3 ''dive_1.mov'' ''./Data/JPEGImages/'' project 11 True
        (snd (download_image 3 ''dive_1.mov'' ''./Data/JPEGImages/'' project 11 True prepared))
       = (Inr ''./Data/JPEGImages/dive_1_3.jpg'',
          snd (download_image 3 ''dive_1.mov'' ''./Data/JPEGImages/'' project 11 True prepared))"
proof -
  let ?dst = "''./Data/JPEGImages/dive_1_3.jpg''"
  let ?r = "download_image 3 ''dive_1.mov'' ''./Data/JPEGImages/'' project 11 True prepared"
  have d: "''./Data/JPEGImages/'' @ split_dot_0 ''dive_1.mov'' @ ''_'' @ str_int 3 @ ''.jpg''
             = ?dst"
    by (simp add: split_dot_0_def str3)
  have r: "resolve ?dst = [''Data'', ''JPEGImages'', ''dive_1_3.jpg'']"
    by (simp add: resolve_def)
  have h1: "\<not> path_exists prepared ?dst"
    by (simp add: path_exists_def r is_dir_def prepared_def)
  have h2: "get_frame project 11 3 = Some ''jpeg-bytes''"
    by (simp add: project_def)
  have h3: "parent_error prepared (resolve ?dst) = None"
    by (simp add: r parent_error_def is_dir_def prepared_def)
  have f: "fetched prepared = []"
    by (simp add: prepared_def)
  have t: "True \<and> \<not> path_exists prepared ?dst \<longrightarrow>
          fetched (snd ?r) = fetched prepared @ [(11, 3)]
          \<and> (fst ?r = Inr ?dst \<longleftrightarrow>
               get_frame project 11 3 \<noteq> None \<and> parent_error prepared (resolve ?dst) = None)
          \<and> (fst ?r = Inr ?dst \<longrightarrow>
               (\<exists>src. get_frame project 11 3 = Some src
                  \<and> files (snd ?r) (resolve ?dst) = Some (Jpeg src))
               \<and> path_exists (snd ?r) ?dst
               \<and> download_image 3 ''dive_1.mov'' ''./Data/JPEGImages/'' project 11 True (snd ?r)
                   = (Inr ?dst, snd ?r))"
    using C6_download_image [of "''./Data/JPEGImages/''" "''dive_1.mov''" 3 project 11 True prepared]
    unfolding Let_def d by blast
  from t h1 have a: "fetched (snd ?r) = fetched prepared @ [(11, 3)]"
    and b: "fst ?r = Inr ?dst \<longleftrightarrow>
               get_frame project 11 3 \<noteq> None \<and> parent_error prepared (resolve ?dst) = None"
    and c: "fst ?r = Inr ?dst \<longrightarrow>
               (\<exists>src. get_frame project 11 3 = Some src
                  \<and> files (snd ?r) (resolve ?dst) = Some (Jpeg src))
               \<and> path_exists (snd ?r) ?dst
               \<and> download_image 3 ''dive_1.mov'' ''./Data/JPEGImages/'' project 11 True (snd ?r)
                   = (Inr ?dst, snd ?r)"
    by blast+
  from b h2 h3 have ok: "fst ?r = Inr ?dst" by simp
  from c ok obtain src where s: "get_frame project 11 3 = Some src"
    "files (snd ?r) (resolve ?dst) = Some (Jpeg src)"
    and again: "download_image 3 ''dive_1.mov'' ''./Data/JPEGImages/'' project 11 True (snd ?r)
                   = (Inr ?dst, snd ?r)"
    by blast
  from s h2 have fl: "files (snd ?r) [''Data'', ''JPEGImages'', ''dive_1_3.jpg''] = Some (Jpeg ''jpeg-bytes'')"
    unfolding r by simp
  from a f have a': "fetched (snd ?r) = [(11, 3)]" by simp
  from h1 h2 h3 ok a' fl again show ?thesis by blast
qed

section \<open>The download flag\<close>

text \<open>
  A run either stops before cell 23, with an exception that does not depend on the flag
  and with the files and fetches it started with, or it is cell 23 on what cell 18
  collected.
\<close>

lemma run_cases:
  "(\<exists>e v. (\<forall>DOWNLOAD. run fmul bar_plot api MEDIA_LIST DOWNLOAD w = (Inl e, v))
          \<and> files v = files w \<and> fetched v = fetched w)
   \<or> (\<exists>mwl v. (\<forall>DOWNLOAD. run fmul bar_plot api MEDIA_LIST DOWNLOAD w =
                   cell23 fmul DOWNLOAD api mwl v)
          \<and> files v = files w \<and> fetched v = fetched w)"
proof (cases "fst (cell7 w)")
  case (Inl e)
  then show ?thesis by (auto simp: run_def split_beta)
next
  case c7: (Inr u)
  show ?thesis
  proof (cases "get_media_list api")
    case None
    with c7 show ?thesis by (auto simp: run_def split_beta)
  next
    case (Some medias)
    let ?w2 = "cell15 MEDIA_LIST (map m_name medias)
                 (print (''Number of medias: '' @ str_int (int (length medias))) (snd (cell7 w)))"
    let ?c = "cell18 api MEDIA_LIST medias [] [] ?w2"
    have st: "files (snd ?c) = files w" "fetched (snd ?c) = fetched w"
      using cell18_store [of api MEDIA_LIST medias "[]" "[]" ?w2] by simp_all
    show ?thesis
    proof (cases "fst ?c")
      case (Inl e)
      with c7 Some st show ?thesis by (auto simp: run_def split_beta Let_def)
    next
      case (Inr r)
      obtain mwl labels where r: "r = (mwl, labels)" by (cases r)
      show ?thesis
      proof (cases "bar_plot labels")
        case False
        with c7 Some st Inr r show ?thesis by (auto simp: run_def split_beta Let_def)
      next
        case True
        show ?thesis
        proof (cases "cell21 mwl")
          case (Inl e)
          with c7 Some st Inr r True show ?thesis by (auto simp: run_def split_beta Let_def)
        next
          case c21: (Inr x)
          have "\<forall>DOWNLOAD. run fmul bar_plot api MEDIA_LIST DOWNLOAD w =
                  cell23 fmul DOWNLOAD api mwl (snd ?c)"
            using c7 Some Inr r True c21 by (simp add: run_def split_beta Let_def)
          with st show ?thesis by blast
        qed
      qed
    qed
  qed
qed

text \<open>
  Claim C4 says that the run with the flag false produces the XML output of the run with
  the flag true. For the media \<^verbatim>\<open>a/b.mov\<close> on an empty machine, the run with the flag
  false returns and writes \<^verbatim>\<open>./Data/Annotations/b_3.xml\<close>; the run with the flag true
  stops with the exception of \<^verbatim>\<open>shutil.move\<close>, and writes no annotation.
\<close>

theorem C4_counterexample:
  "fst (run exact_mul always_plots nested_project [''a/b.mov''] False fresh) = Inr ()
   \<and> files (snd (run exact_mul always_plots nested_project [''a/b.mov''] False fresh))
        [''Data'', ''Annotations'', ''b_3.xml''] \<noteq> None
   \<and> fst (run exact_mul always_plots nested_project [''a/b.mov''] True fresh) = Inl FileNotFoundError
   \<and> files (snd (run exact_mul always_plots nested_project [''a/b.mov''] True fresh))
        [''Data'', ''Annotations'', ''b_3.xml''] = None"
  by (simp add: run_def cell7_fresh always_plots_def cell21_def nested_project_def
      collect_media_def fish_def prepared_def eval_defs)

text \<open>
  Claim C4, amended. A run with the flag false fetches no frame and changes no file
  outside the annotation directory. When the run with the flag true returns, the run with
  the flag false, from the same machine and the same data, returns too, and the two leave
  the same files everywhere outside the image directory, so the same XML files.
\<close>

theorem C4_flag_false:
  "fetched (snd (run fmul bar_plot api MEDIA_LIST False w)) = fetched w
   \<and> (\<forall>q. \<not> prefix [''Data'', ''Annotations''] q \<longrightarrow>
         files (snd (run fmul bar_plot api MEDIA_LIST False w)) q = files w q)
   \<and> (fst (run fmul bar_plot api MEDIA_LIST True w) = Inr () \<longrightarrow>
         fst (run fmul bar_plot api MEDIA_LIST False w) = Inr ()
         \<and> (\<forall>q. \<not> prefix [''Data'', ''JPEGImages''] q \<longrightarrow>
               files (snd (run fmul bar_plot api MEDIA_LIST True w)) q =
               files (snd (run fmul bar_plot api MEDIA_LIST False w)) q))"
proof -
  from run_cases [of fmul bar_plot api MEDIA_LIST w]
  consider e v where "\<forall>DOWNLOAD. run fmul bar_plot api MEDIA_LIST DOWNLOAD w = (Inl e, v)"
      "files v = files w" "fetched v = fetched w"
    | mwl v where "\<forall>DOWNLOAD. run fmul bar_plot api MEDIA_LIST DOWNLOAD w =
                   cell23 fmul DOWNLOAD api mwl v"
      "files v = files w" "fetched v = fetched w"
    by blast
  then show ?thesis
  proof cases
    case 1
    then show ?thesis by simp
  next
    case 2
    have a: "fetched (snd (cell23 fmul False api mwl v)) = fetched v"
      "\<forall>q. \<not> prefix [''Data'', ''Annotations''] q \<longrightarrow>
         files (snd (cell23 fmul False api mwl v)) q = files v q"
      using cell23_False [of fmul api mwl v] by simp_all
    have b: "fst (cell23 fmul False api mwl v) = Inr ()
       \<and> (\<forall>q. \<not> prefix [''Data'', ''JPEGImages''] q \<longrightarrow>
            files (snd (cell23 fmul True api mwl v)) q = files (snd (cell23 fmul False api mwl v)) q)"
      if "fst (cell23 fmul True api mwl v) = Inr ()"
      using cell23_flag [OF _ _ that, of v] by simp
    from a b 2 show ?thesis by simp
  qed
qed

lemma run_dive_True:
  "fst (run exact_mul always_plots project [''dive:1.mov''] True fresh) = Inr ()
   \<and> files (snd (run exact_mul always_plots project [''dive:1.mov''] True fresh))
        [''Data'', ''JPEGImages'', ''dive_1_3.jpg''] = Some (Jpeg ''jpeg-bytes'')
   \<and> files (snd (run exact_mul always_plots project [''dive:1.mov''] True fresh))
        [''Data'', ''Annotations'', ''dive_1_3.xml''] =
      Some (Xml \<lparr>wr_path = frame_path ''dive_1.mov'' 3, wr_width = 100, wr_height = 50,
                 wr_objects =
                   [\<lparr>obj_name = ''Urchin'', obj_xmin = 25, obj_ymin = 12, obj_xmax = 75, obj_ymax = 37\<rparr>,
                    \<lparr>obj_name = ''Urchin'', obj_xmin = 25, obj_ymin = 12, obj_xmax = 75, obj_ymax = 37\<rparr>,
                    \<lparr>obj_name = ''Fish'', obj_xmin = 90, obj_ymin = 0, obj_xmax = 140, obj_ymax = 0\<rparr>]\<rparr>)"
  by (simp add: run_def cell7_fresh always_plots_def cell21_def project_def dive_def
      collect_media_def fish_def urchin_def prepared_def eval_defs)

text \<open>
  The amended statement for the example project on an empty machine: the run with the
  flag true returns and stores the image of frame 3; the run with the flag false returns,
  fetches nothing and leaves no image, and its annotation of frame 3 holds the three
  objects that the other run wrote.
\<close>

theorem C4_flag_false_witness:
  "fst (run exact_mul always_plots project [''dive:1.mov''] True fresh) = Inr ()
   \<and> files (snd (run exact_mul always_plots project [''dive:1.mov''] True fresh))
        [''Data'', ''JPEGImages'', ''dive_1_3.jpg''] = Some (Jpeg ''jpeg-bytes'')
   \<and> fst (run exact_mul always_plots project [''dive:1.mov''] False fresh) = Inr ()
   \<and> fetched (snd (run exact_mul always_plots project [''dive:1.mov''] False fresh)) = []
   \<and> files (snd (run exact_mul always_plots project [''dive:1.mov''] False fresh))
        [''Data'', ''JPEGImages'', ''dive_1_3.jpg''] = None
   \<and> files (snd (run exact_mul always_plots project [''dive:1.mov''] False fresh))
        [''Data'', ''Annotations'', ''dive_1_3.xml''] =
      Some (Xml \<lparr>wr_path = frame_path ''dive_1.mov'' 3, wr_width = 100, wr_height = 50,
                 wr_objects =
                   [\<lparr>obj_name = ''Urchin'', obj_xmin = 25, obj_ymin = 12, obj_xmax = 75, obj_ymax = 37\<rparr>,
                    \<lparr>obj_name = ''Urchin'', obj_xmin = 25, obj_ymin = 12, obj_xmax = 75, obj_ymax = 37\<rparr>,
                    \<lparr>obj_name = ''Fish'', obj_xmin = 90, obj_ymin = 0, obj_xmax = 140, obj_ymax = 0\<rparr>]\<rparr>)"
proof -
  note h = run_dive_True
  have p: "\<not> prefix [''Data'', ''Annotations''] [''Data'', ''JPEGImages'', ''dive_1_3.jpg'']"
    "\<not> prefix [''Data'', ''JPEGImages''] [''Data'', ''Annotations'', ''dive_1_3.xml'']"
    by simp_all
  have f: "files fresh [''Data'', ''JPEGImages'', ''dive_1_3.jpg''] = None" "fetched fresh = []"
    by (simp_all add: fresh_def)
  from C4_flag_false [of exact_mul always_plots project "[''dive:1.mov'']" fresh]
  have a: "fetched (snd (run exact_mul always_plots project [''dive:1.mov''] False fresh)) = fetched fresh"
    and b: "\<forall>q. \<not> prefix [''Data'', ''Annotations''] q \<longrightarrow>
         files (snd (run exact_mul always_plots project [''dive:1.mov''] False fresh)) q = files fresh q"
    and c: "fst (run exact_mul always_plots project [''dive:1.mov''] True fresh) = Inr () \<longrightarrow>
         fst (run exact_mul always_plots project [''dive:1.mov''] False fresh) = Inr ()
         \<and> (\<forall>q. \<not> prefix [''Data'', ''JPEGImages''] q \<longrightarrow>
               files (snd (run exact_mul always_plots project [''dive:1.mov''] True fresh)) q =
               files (snd (run exact_mul always_plots project [''dive:1.mov''] False fresh)) q)"
    by blast+
  from b p(1) f(1) have b': "files (snd (run exact_mul always_plots project [''dive:1.mov''] False fresh))
        [''Data'', ''JPEGImages'', ''dive_1_3.jpg''] = None" by simp
  from c h have c1: "fst (run exact_mul always_plots project [''dive:1.mov''] False fresh) = Inr ()"
    and c2: "\<forall>q. \<not> prefix [''Data'', ''JPEGImages''] q \<longrightarrow>
               files (snd (run exact_mul always_plots project [''dive:1.mov''] True fresh)) q =
               files (snd (run exact_mul always_plots project [''dive:1.mov''] False fresh)) q"
    by blast+
  from c2 p(2) have c3: "files (snd (run exact_mul always_plots project [''dive:1.mov''] False fresh))
        [''Data'', ''Annotations'', ''dive_1_3.xml''] =
      files (snd (run exact_mul always_plots project [''dive:1.mov''] True fresh))
        [''Data'', ''Annotations'', ''dive_1_3.xml'']" by simp
  from h a f(2) b' c1 c3 show ?thesis by simp
qed

section \<open>A requested media that is not found\<close>





end
